theory Spec2Isabelle
  imports Complex_Main "HOL-Library.Word"
begin

section \<open>SCARA kinematics of grblHAL (scara.c)\<close>

text \<open>
  A shallow embedding of \<^verbatim>\<open>scara.c\<close>: the forward and inverse kinematics of a two-link
  planar arm, the wrappers installed as grblHAL's kinematics callbacks, the two-phase line
  segmenter and the homing adapters.

  The diagnostic output written with \<^verbatim>\<open>hal.stream.write\<close> does not influence any value the
  functions compute or store and is left out.
\<close>

subsection \<open>C \<^verbatim>\<open>float\<close> values\<close>

text \<open>
  A \<^verbatim>\<open>float\<close> is modelled as either NaN or a real number. Arithmetic on numbers is
  exact: rounding, overflow to an infinity and signed zeros are not modelled, so every
  statement below is about the exact-arithmetic reading of the code. NaN behaves as in
  IEEE 754: it propagates through every operation and every ordered comparison with NaN
  is false. A division by zero yields NaN here (IEEE 754 gives an infinity for a nonzero
  dividend); the only divisors of the source that can be zero are the configured
  \<^verbatim>\<open>steps_per_mm\<close>.
\<close>

datatype cfloat = NaN | Fin real

fun isnan :: "cfloat \<Rightarrow> bool" where
  "isnan NaN = True"
| "isnan (Fin a) = False"

instantiation cfloat :: "{plus, minus, times, uminus, inverse, ord}"
begin

fun plus_cfloat :: "cfloat \<Rightarrow> cfloat \<Rightarrow> cfloat" where
  "plus_cfloat (Fin a) (Fin b) = Fin (a + b)"
| "plus_cfloat _ _ = NaN"

fun minus_cfloat :: "cfloat \<Rightarrow> cfloat \<Rightarrow> cfloat" where
  "minus_cfloat (Fin a) (Fin b) = Fin (a - b)"
| "minus_cfloat _ _ = NaN"

fun times_cfloat :: "cfloat \<Rightarrow> cfloat \<Rightarrow> cfloat" where
  "times_cfloat (Fin a) (Fin b) = Fin (a * b)"
| "times_cfloat _ _ = NaN"

fun uminus_cfloat :: "cfloat \<Rightarrow> cfloat" where
  "uminus_cfloat (Fin a) = Fin (- a)"
| "uminus_cfloat NaN = NaN"

fun divide_cfloat :: "cfloat \<Rightarrow> cfloat \<Rightarrow> cfloat" where
  "divide_cfloat (Fin a) (Fin b) = (if b = 0 then NaN else Fin (a / b))"
| "divide_cfloat _ _ = NaN"

fun inverse_cfloat :: "cfloat \<Rightarrow> cfloat" where
  "inverse_cfloat (Fin a) = (if a = 0 then NaN else Fin (1 / a))"
| "inverse_cfloat NaN = NaN"

fun less_cfloat :: "cfloat \<Rightarrow> cfloat \<Rightarrow> bool" where
  "less_cfloat (Fin a) (Fin b) = (a < b)"
| "less_cfloat _ _ = False"

fun less_eq_cfloat :: "cfloat \<Rightarrow> cfloat \<Rightarrow> bool" where
  "less_eq_cfloat (Fin a) (Fin b) = (a \<le> b)"
| "less_eq_cfloat _ _ = False"

instance ..

end

text \<open>The functions of \<^verbatim>\<open>math.h\<close> the source calls. A domain error yields NaN.\<close>

fun cosf :: "cfloat \<Rightarrow> cfloat" where
  "cosf (Fin a) = Fin (cos a)"
| "cosf NaN = NaN"

fun sinf :: "cfloat \<Rightarrow> cfloat" where
  "sinf (Fin a) = Fin (sin a)"
| "sinf NaN = NaN"

fun acosf :: "cfloat \<Rightarrow> cfloat" where
  "acosf (Fin a) = (if - 1 \<le> a \<and> a \<le> 1 then Fin (arccos a) else NaN)"
| "acosf NaN = NaN"

fun sqrtf :: "cfloat \<Rightarrow> cfloat" where
  "sqrtf (Fin a) = (if a < 0 then NaN else Fin (sqrt a))"
| "sqrtf NaN = NaN"

fun ceilf :: "cfloat \<Rightarrow> cfloat" where
  "ceilf (Fin a) = Fin (of_int \<lceil>a\<rceil>)"
| "ceilf NaN = NaN"

text \<open>
  The angle of the point \<open>(x, y)\<close> in \<open>(-\<pi>, \<pi>]\<close>, by quadrant; \<open>atan2 0 0 = 0\<close> as
  \<^verbatim>\<open>atan2f(+0, +0)\<close>.
\<close>

definition atan2 :: "real \<Rightarrow> real \<Rightarrow> real" where
  "atan2 y x =
     (if 0 < x then arctan (y / x)
      else if x < 0 then (if 0 \<le> y then arctan (y / x) + pi else arctan (y / x) - pi)
      else if 0 < y then pi / 2
      else if y < 0 then - (pi / 2)
      else 0)"

fun atan2f :: "cfloat \<Rightarrow> cfloat \<Rightarrow> cfloat" where
  "atan2f (Fin y) (Fin x) = Fin (atan2 y x)"
| "atan2f _ _ = NaN"

subsection \<open>Configuration\<close>

text \<open>
  \<^verbatim>\<open>X_AXIS\<close>, \<^verbatim>\<open>Y_AXIS\<close>, \<^verbatim>\<open>RADDEG\<close> and \<^verbatim>\<open>DEGRAD\<close> come from grblHAL's
  \<^verbatim>\<open>nuts_bolts.h\<close>: the indices of the first two axes, radians per degree and degrees per
  radian. The number of axes \<^verbatim>\<open>N_AXIS\<close> is a build option of grblHAL (at least 3); the
  functions below take it as their first argument \<open>n\<close>.
\<close>

definition X_AXIS :: nat where "X_AXIS = 0"
definition Y_AXIS :: nat where "Y_AXIS = 1"
definition A_MOTOR :: nat where "A_MOTOR = X_AXIS"
definition B_MOTOR :: nat where "B_MOTOR = Y_AXIS"

definition RADDEG :: cfloat where "RADDEG = Fin (pi / 180)"
definition DEGRAD :: cfloat where "DEGRAD = Fin (180 / pi)"

definition MAX_SEG_LENGTH_MM :: cfloat where "MAX_SEG_LENGTH_MM = Fin 2"
definition SCARA_L1 :: cfloat where "SCARA_L1 = Fin 500"
definition SCARA_L2 :: cfloat where "SCARA_L2 = Fin 450"

record xy_t =
  xy_x :: cfloat
  xy_y :: cfloat

record q_t =
  q_q1 :: cfloat
  q_q2 :: cfloat

record machine_t =
  l1 :: cfloat
  l2 :: cfloat

text \<open>
  The static \<^verbatim>\<open>machine\<close> as \<^verbatim>\<open>scara_init\<close> sets it. Every other function of the file is
  static and reachable only through the pointers \<^verbatim>\<open>scara_init\<close> installs, so it runs
  with these link lengths.
\<close>

definition machine :: machine_t where
  "machine = \<lparr>l1 = SCARA_L1, l2 = SCARA_L2\<rparr>"

subsection \<open>Kinematics calculations\<close>

definition q_to_xy :: "cfloat \<Rightarrow> cfloat \<Rightarrow> xy_t" where
  "q_to_xy q1 q2 =
     \<lparr>xy_x = l1 machine * cosf (q1 * RADDEG) + l2 machine * cosf (q2 * RADDEG),
      xy_y = l1 machine * sinf (q1 * RADDEG) + l2 machine * sinf (q2 * RADDEG)\<rparr>"

text \<open>
  \<^verbatim>\<open>SCARA_ELBOW_UP\<close> and \<^verbatim>\<open>SCARA_ABSOLUTE_JOINT_ANGLES\<close> are both \<^verbatim>\<open>On\<close>: the
  preprocessor keeps the elbow-up and the absolute-angle branch.
\<close>

definition xy_to_q :: "cfloat \<Rightarrow> cfloat \<Rightarrow> q_t" where
  "xy_to_q x y =
     (let r_sq = x * x + y * y in
      if r_sq > (l1 machine + l2 machine) * (l1 machine + l2 machine) then
        \<lparr>q_q1 = NaN, q_q2 = NaN\<rparr>
      else
        let cos_q12 = (r_sq - l1 machine * l1 machine - l2 machine * l2 machine)
                        / (Fin 2 * l1 machine * l2 machine);
            q12 = acosf cos_q12;
            beta = atan2f (l2 machine * sinf q12) (l1 machine + l2 machine * cos_q12);
            q1 = atan2f y x + beta;
            q12 = - q12;
            q2 = q1 + q12
        in \<lparr>q_q1 = q1 * DEGRAD, q_q2 = q2 * DEGRAD\<rparr>)"

subsection \<open>Kinematics callbacks\<close>

text \<open>
  The loop \<^verbatim>\<open>idx = N_AXIS-1; do { dst[idx] = src[idx]; idx--; } while (idx > Y_AXIS);\<close>
  shared by both transforms; \<open>copy_higher_axes\<close> is entered with \<open>idx = n - 1\<close>.
  The counter \<^verbatim>\<open>idx\<close> of every loop of the file is a \<^verbatim>\<open>uint_fast8_t\<close> that starts at
  \<^verbatim>\<open>N_AXIS\<close> or \<^verbatim>\<open>N_AXIS-1\<close> and is decremented down to 0 or 1; with at least three axes
  it never wraps, and it is a natural number here.
\<close>

function copy_higher_axes :: "nat \<Rightarrow> cfloat list \<Rightarrow> cfloat list \<Rightarrow> cfloat list" where
  "copy_higher_axes idx dst src =
     (let dst = dst[idx := src ! idx];
          idx = idx - 1
      in if idx > Y_AXIS then copy_higher_axes idx dst src else dst)"
  by pat_completeness auto
termination
  by (relation "measure (\<lambda>(idx, dst, src). idx)") (auto simp: Y_AXIS_def)

definition scara_transform_to_cartesian :: "nat \<Rightarrow> cfloat list \<Rightarrow> cfloat list \<Rightarrow> cfloat list" where
  "scara_transform_to_cartesian n coords angles =
     (let coords = copy_higher_axes (n - 1) coords angles;
          xy = q_to_xy (angles ! A_MOTOR) (angles ! B_MOTOR);
          coords = coords[X_AXIS := xy_x xy];
          coords = coords[Y_AXIS := xy_y xy]
      in coords)"

text \<open>
  \<^verbatim>\<open>system_raise_alarm\<close> belongs to grblHAL's \<^verbatim>\<open>system.c\<close>; all this file relies on is
  that the alarm is raised, which is recorded in the list of raised alarms.
\<close>

datatype alarm_code_t = Alarm_SoftLimit

definition system_raise_alarm :: "alarm_code_t \<Rightarrow> alarm_code_t list \<Rightarrow> alarm_code_t list" where
  "system_raise_alarm a raised = raised @ [a]"

text \<open>
  The result of \<open>scara_transform_from_cartesian\<close> is the returned pointer (\<open>None\<close> for
  \<^verbatim>\<open>NULL\<close>, otherwise the contents of \<^verbatim>\<open>target_q\<close>), the contents of the
  caller's buffer \<^verbatim>\<open>target_q\<close> when the function returns, and the alarms raised.
\<close>

definition scara_transform_from_cartesian ::
  "nat \<Rightarrow> cfloat list \<Rightarrow> cfloat list \<Rightarrow> alarm_code_t list
     \<Rightarrow> cfloat list option \<times> cfloat list \<times> alarm_code_t list" where
  "scara_transform_from_cartesian n target_q position_xy raised =
     (let target_q = copy_higher_axes (n - 1) target_q position_xy;
          q = xy_to_q (position_xy ! A_MOTOR) (position_xy ! B_MOTOR)
      in if isnan (q_q1 q) \<or> isnan (q_q2 q) then
           (None, target_q, system_raise_alarm Alarm_SoftLimit raised)
         else
           let target_q = target_q[A_MOTOR := q_q1 q];
               target_q = target_q[B_MOTOR := q_q2 q]
           in (Some target_q, target_q, raised))"

subsection \<open>Line segmentation\<close>

text \<open>
  The statics of \<^verbatim>\<open>scara_segment_line\<close>, the global \<^verbatim>\<open>jog_cancel\<close> and the alarms raised
  so far. \<^verbatim>\<open>uint_fast16_t\<close> is 32 bits wide, as on the 32-bit ARM targets of grblHAL.
\<close>

type_synonym uint_fast16_t = "32 word"

record segment_state =
  jog_cancel :: bool
  do_segments :: bool
  iterations :: uint_fast16_t
  delta :: "cfloat list"
  segment_target :: "cfloat list"
  current_position :: "cfloat list"
  final_target :: "cfloat list"
  raised_alarms :: "alarm_code_t list"

record plan_line_data_t =
  rapid_motion :: bool

text \<open>
  The conversions between \<^verbatim>\<open>float\<close> and \<^verbatim>\<open>uint_fast16_t\<close>. C truncates towards zero and
  leaves the conversion of NaN or of a value outside the range of the integer type
  undefined; the model reduces modulo \<open>2^32\<close> there and maps NaN to 0, and no statement
  below rests on these two choices.
\<close>

fun float_to_uint_fast16 :: "cfloat \<Rightarrow> uint_fast16_t" where
  "float_to_uint_fast16 (Fin a) = word_of_int (if 0 \<le> a then \<lfloor>a\<rfloor> else \<lceil>a\<rceil>)"
| "float_to_uint_fast16 NaN = 0"

definition uint_fast16_to_float :: "uint_fast16_t \<Rightarrow> cfloat" where
  "uint_fast16_to_float w = Fin (of_nat (unat w))"

text \<open>The three loops \<^verbatim>\<open>idx = N_AXIS; do { idx--; ... } while (idx);\<close> of the segmenter.\<close>

function calc_delta :: "nat \<Rightarrow> cfloat list \<Rightarrow> cfloat list \<Rightarrow> cfloat list \<Rightarrow> cfloat list" where
  "calc_delta idx target cur dlt =
     (let idx = idx - 1;
          dlt = dlt[idx := target ! idx - cur ! idx]
      in if idx \<noteq> 0 then calc_delta idx target cur dlt else dlt)"
  by pat_completeness auto
termination
  by (relation "measure (\<lambda>(idx, target, cur, dlt). idx)") auto

function scale_delta :: "nat \<Rightarrow> uint_fast16_t \<Rightarrow> cfloat list \<Rightarrow> cfloat list" where
  "scale_delta idx its dlt =
     (let idx = idx - 1;
          dlt = dlt[idx := dlt ! idx / uint_fast16_to_float its]
      in if idx \<noteq> 0 then scale_delta idx its dlt else dlt)"
  by pat_completeness auto
termination
  by (relation "measure (\<lambda>(idx, its, dlt). idx)") auto

function add_delta :: "nat \<Rightarrow> cfloat list \<Rightarrow> cfloat list \<Rightarrow> cfloat list" where
  "add_delta idx dlt tgt =
     (let idx = idx - 1;
          tgt = tgt[idx := tgt ! idx + dlt ! idx]
      in if idx \<noteq> 0 then add_delta idx dlt tgt else tgt)"
  by pat_completeness auto
termination
  by (relation "measure (\<lambda>(idx, dlt, tgt). idx)") auto

text \<open>
  \<open>segment_init\<close> is the \<^verbatim>\<open>if (init)\<close> branch, \<open>segment_next\<close> the \<^verbatim>\<open>else\<close> branch and
  \<open>scara_segment_line\<close> the whole function: a branch, then the conversion to joint
  angles and the returned pointer (\<open>None\<close> for \<^verbatim>\<open>NULL\<close>, otherwise the contents of
  \<^verbatim>\<open>current_position.values\<close>). \<^verbatim>\<open>delta.x\<close> and \<^verbatim>\<open>delta.y\<close> are \<^verbatim>\<open>delta.values[0]\<close> and
  \<^verbatim>\<open>delta.values[1]\<close>. The value of \<^verbatim>\<open>scara_transform_from_cartesian\<close> is discarded, as
  in the source.
\<close>

definition planar_distance :: "cfloat list \<Rightarrow> cfloat" where
  "planar_distance dlt = sqrtf (dlt ! 0 * dlt ! 0 + dlt ! 1 * dlt ! 1)"

definition segment_init ::
  "nat \<Rightarrow> cfloat list \<Rightarrow> cfloat list \<Rightarrow> plan_line_data_t \<Rightarrow> segment_state \<Rightarrow> segment_state" where
  "segment_init n target position plan_data s =
     (let s = s\<lparr>jog_cancel := False\<rparr>;
          s = s\<lparr>final_target := target\<rparr>;
          s = s\<lparr>current_position := scara_transform_to_cartesian n (current_position s) position\<rparr>;
          s = s\<lparr>delta := calc_delta n target (current_position s) (delta s)\<rparr>;
          distance = planar_distance (delta s);
          s = s\<lparr>do_segments := \<not> rapid_motion plan_data \<and> distance > MAX_SEG_LENGTH_MM\<rparr>;
          s = (if do_segments s then
                 let s = s\<lparr>iterations := float_to_uint_fast16 (ceilf (distance / MAX_SEG_LENGTH_MM))\<rparr>;
                     s = s\<lparr>delta := scale_delta n (iterations s) (delta s)\<rparr>
                 in s\<lparr>segment_target := current_position s\<rparr>
               else
                 let s = s\<lparr>iterations := 1\<rparr>
                 in s\<lparr>segment_target := final_target s\<rparr>)
      in s\<lparr>iterations := iterations s + 1\<rparr>)"

definition segment_next :: "nat \<Rightarrow> segment_state \<Rightarrow> segment_state" where
  "segment_next n s =
     (let s = s\<lparr>iterations := iterations s - 1\<rparr>
      in if do_segments s \<and> iterations s > 1 then
           s\<lparr>segment_target := add_delta n (delta s) (segment_target s)\<rparr>
         else
           s\<lparr>segment_target := final_target s\<rparr>)"

definition scara_segment_line ::
  "nat \<Rightarrow> cfloat list \<Rightarrow> cfloat list \<Rightarrow> plan_line_data_t \<Rightarrow> bool \<Rightarrow> segment_state
     \<Rightarrow> cfloat list option \<times> segment_state" where
  "scara_segment_line n target position plan_data init s =
     (let s = (if init then segment_init n target position plan_data s else segment_next n s);
          (ret, buf, raised) =
             scara_transform_from_cartesian n (current_position s) (segment_target s) (raised_alarms s);
          s = s\<lparr>current_position := buf, raised_alarms := raised\<rparr>
      in if iterations s = 0 \<or> jog_cancel s then (None, s)
         else (Some (current_position s), s))"

definition cancel_jog :: "segment_state \<Rightarrow> segment_state" where
  "cancel_jog s = s\<lparr>jog_cancel := True\<rparr>"

text \<open>
  The state after \<open>k\<close> further calls with \<^verbatim>\<open>init = false\<close>; such a call reads neither
  \<^verbatim>\<open>target\<close> nor \<^verbatim>\<open>position\<close> (which is \<^verbatim>\<open>NULL\<close>) nor \<^verbatim>\<open>plan_data\<close>.
\<close>

definition next_call :: "nat \<Rightarrow> segment_state \<Rightarrow> cfloat list option \<times> segment_state" where
  "next_call n s = scara_segment_line n [] [] \<lparr>rapid_motion = False\<rparr> False s"

fun after_next_calls :: "nat \<Rightarrow> nat \<Rightarrow> segment_state \<Rightarrow> segment_state" where
  "after_next_calls n 0 s = s"
| "after_next_calls n (Suc k) s = after_next_calls n k (snd (next_call n s))"

subsection \<open>Homing adapters\<close>

text \<open>
  The fields of grblHAL's \<^verbatim>\<open>settings\<close> the two adapters read: per axis
  \<^verbatim>\<open>settings.axis[idx].steps_per_mm\<close> and \<^verbatim>\<open>settings.axis[idx].max_travel\<close>, and of
  \<^verbatim>\<open>settings.homing\<close> the \<^verbatim>\<open>pulloff\<close>, \<^verbatim>\<open>flags.force_set_origin\<close> and
  \<^verbatim>\<open>dir_mask.value\<close>. \<^verbatim>\<open>sys.position\<close> is an array of \<^verbatim>\<open>int32_t\<close> steps.
\<close>

record settings_t =
  steps_per_mm :: "cfloat list"
  max_travel :: "cfloat list"
  homing_pulloff :: cfloat
  force_set_origin :: bool
  dir_mask :: "8 word"

definition int32_to_float :: "int \<Rightarrow> cfloat" where
  "int32_to_float i = Fin (of_int i)"

text \<open>
  Storing a \<^verbatim>\<open>float\<close> into an \<^verbatim>\<open>int32_t\<close> truncates towards zero; for NaN and for a
  value outside the range of \<^verbatim>\<open>int32_t\<close> the behaviour is undefined in C. \<^verbatim>\<open>lroundf\<close>
  rounds to the nearest integer, halfway cases away from zero, and its result is
  unspecified for NaN and out of range. In both cases the model's result is \<open>None\<close>, and
  the adapters return \<open>None\<close> as soon as one conversion does.
\<close>

definition in_int32 :: "int \<Rightarrow> int option" where
  "in_int32 i = (if - (2 ^ 31) \<le> i \<and> i < 2 ^ 31 then Some i else None)"

fun float_to_int32 :: "cfloat \<Rightarrow> int option" where
  "float_to_int32 (Fin a) = in_int32 (if 0 \<le> a then \<lfloor>a\<rfloor> else \<lceil>a\<rceil>)"
| "float_to_int32 NaN = None"

fun lroundf :: "cfloat \<Rightarrow> int option" where
  "lroundf (Fin a) = in_int32 (if 0 \<le> a then \<lfloor>a + 1 / 2\<rfloor> else - \<lfloor>- a + 1 / 2\<rfloor>)"
| "lroundf NaN = None"

definition scara_limits_set_target_pos :: "settings_t \<Rightarrow> nat \<Rightarrow> int list \<Rightarrow> int list option" where
  "scara_limits_set_target_pos settings idx position =
     (let x = int32_to_float (position ! X_AXIS) / steps_per_mm settings ! A_MOTOR;
          y = int32_to_float (position ! Y_AXIS) / steps_per_mm settings ! B_MOTOR;
          q = xy_to_q x y
      in if idx = X_AXIS then
           map_option (\<lambda>v. position[A_MOTOR := v])
             (float_to_int32 (q_q1 q * steps_per_mm settings ! A_MOTOR))
         else if idx = Y_AXIS then
           map_option (\<lambda>v. position[B_MOTOR := v])
             (float_to_int32 (q_q2 q * steps_per_mm settings ! B_MOTOR))
         else Some (position[idx := 0]))"

text \<open>
  The body of the loop of \<^verbatim>\<open>scara_limits_set_machine_positions\<close>, entered with the
  \<^verbatim>\<open>idx\<close> left by \<^verbatim>\<open>--idx\<close> in the guarding \<^verbatim>\<open>if\<close>: the pull-off is computed for \<^verbatim>\<open>idx\<close>,
  then \<^verbatim>\<open>switch(--idx)\<close> decrements before it selects. \<^verbatim>\<open>xy\<close> is read from
  \<^verbatim>\<open>sys.position\<close> once, before the loop. \<^verbatim>\<open>cycle.mask & bit(idx)\<close> tests bit \<^verbatim>\<open>idx\<close>.
\<close>

function machine_positions_loop ::
  "settings_t \<Rightarrow> cfloat \<Rightarrow> cfloat \<Rightarrow> nat \<Rightarrow> int \<Rightarrow> int list \<Rightarrow> int list option" where
  "machine_positions_loop settings x y idx pulloff position =
     (case (if force_set_origin settings then
              (if bit (dir_mask settings) idx
               then lroundf ((max_travel settings ! idx + homing_pulloff settings)
                               * steps_per_mm settings ! idx)
               else lroundf (- homing_pulloff settings * steps_per_mm settings ! idx))
            else Some pulloff) of
        None \<Rightarrow> None
      | Some pulloff \<Rightarrow>
          let idx = idx - 1 in
          case (if idx = X_AXIS then
                  map_option (\<lambda>v. position[A_MOTOR := v])
                    (float_to_int32 (q_q1 (xy_to_q x y) * steps_per_mm settings ! A_MOTOR
                                       + int32_to_float pulloff))
                else if idx = Y_AXIS then
                  map_option (\<lambda>v. position[B_MOTOR := v])
                    (float_to_int32 (q_q2 (xy_to_q x y) * steps_per_mm settings ! B_MOTOR
                                       + int32_to_float pulloff))
                else Some (position[idx := 0])) of
            None \<Rightarrow> None
          | Some position \<Rightarrow>
              if idx \<noteq> 0 then machine_positions_loop settings x y idx pulloff position
              else Some position)"
  by pat_completeness auto
termination
  by (relation "measure (\<lambda>(settings, x, y, idx, pulloff, position). idx)") auto

definition scara_limits_set_machine_positions ::
  "nat \<Rightarrow> settings_t \<Rightarrow> 8 word \<Rightarrow> int list \<Rightarrow> int list option" where
  "scara_limits_set_machine_positions n settings cycle_mask position =
     (let x = int32_to_float (position ! X_AXIS) / steps_per_mm settings ! A_MOTOR;
          y = int32_to_float (position ! Y_AXIS) / steps_per_mm settings ! B_MOTOR;
          idx = n - 1
      in if bit cycle_mask idx then machine_positions_loop settings x y idx 0 position
         else Some position)"

subsection \<open>Notions used in the statements\<close>

text \<open>
  The test of \<^verbatim>\<open>scara_transform_from_cartesian\<close> for a target out of reach, the cartesian
  start position and the planar distance that \<open>segment_init\<close> computes, the statics as the
  C runtime zero-initialises them for three axes, and the joint angles \<open>(0\<degree>, -90\<degree>)\<close> that
  \<^verbatim>\<open>scara_init\<close> sets.
\<close>

definition unreachable :: "q_t \<Rightarrow> bool" where
  "unreachable q = (isnan (q_q1 q) \<or> isnan (q_q2 q))"

definition start_cartesian :: "nat \<Rightarrow> cfloat list \<Rightarrow> segment_state \<Rightarrow> cfloat list" where
  "start_cartesian n position s = scara_transform_to_cartesian n (current_position s) position"

definition move_distance :: "nat \<Rightarrow> cfloat list \<Rightarrow> cfloat list \<Rightarrow> segment_state \<Rightarrow> cfloat" where
  "move_distance n target position s =
     planar_distance (calc_delta n target (start_cartesian n position s) (delta s))"

definition initial_state :: segment_state where
  "initial_state =
     \<lparr>jog_cancel = False, do_segments = False, iterations = 0,
      delta = [Fin 0, Fin 0, Fin 0], segment_target = [Fin 0, Fin 0, Fin 0],
      current_position = [Fin 0, Fin 0, Fin 0], final_target = [Fin 0, Fin 0, Fin 0],
      raised_alarms = []\<rparr>"

definition home_angles :: "cfloat list" where
  "home_angles = [Fin 0, Fin (- 90), Fin 0]"

text \<open>
  The law-of-cosines ratio \<open>(r\<^sup>2 - l1\<^sup>2 - l2\<^sup>2) / (2 l1 l2)\<close> and the angle \<open>beta\<close> of
  \<open>xy_to_q\<close> for the link lengths 500 and 450, as real numbers.
\<close>

definition elbow_cos :: "real \<Rightarrow> real \<Rightarrow> real" where
  "elbow_cos x y = (x\<^sup>2 + y\<^sup>2 - 452500) / 450000"

definition elbow_beta :: "real \<Rightarrow> real \<Rightarrow> real" where
  "elbow_beta x y = atan2 (450 * sin (arccos (elbow_cos x y))) (500 + 450 * elbow_cos x y)"

text \<open>
  The inverse transform as the specification words it for the elbow-up branch with an
  absolute \<open>q2\<close>, for link lengths \<open>len1\<close> and \<open>len2\<close>: \<open>q12 = acos((x\<^sup>2 + y\<^sup>2 - l1\<^sup>2 - l2\<^sup>2) /
  (2 l1 l2))\<close>, \<open>\<beta> = atan2(l2 sin q12, l1 + l2 cos q12)\<close>, \<open>q1 = atan2(y, x) + \<beta>\<close>,
  \<open>signedQ12 = -q12\<close>, \<open>q2 = q1 + signedQ12\<close>, both converted to degrees. It is compared
  with \<open>xy_to_q\<close> below.
\<close>

definition elbow_up_absolute :: "real \<Rightarrow> real \<Rightarrow> real \<Rightarrow> real \<Rightarrow> q_t" where
  "elbow_up_absolute len1 len2 x y =
     (let q12 = acosf (Fin ((x\<^sup>2 + y\<^sup>2 - len1\<^sup>2 - len2\<^sup>2) / (2 * len1 * len2)));
          beta = atan2f (Fin len2 * sinf q12) (Fin len1 + Fin len2 * cosf q12);
          q1 = atan2f (Fin y) (Fin x) + beta;
          signedQ12 = - q12;
          q2 = q1 + signedQ12
      in \<lparr>q_q1 = q1 * Fin (180 / pi), q_q2 = q2 * Fin (180 / pi)\<rparr>)"

text \<open>
  The inverse transform of a whole cartesian vector: the two driven components are replaced
  by the joint angles, the others are kept.
\<close>

definition joint_waypoint :: "cfloat list \<Rightarrow> cfloat list" where
  "joint_waypoint p =
     p[0 := q_q1 (xy_to_q (p ! 0) (p ! 1)), 1 := q_q2 (xy_to_q (p ! 0) (p ! 1))]"

text \<open>
  The statics after a rapid move from the home angles to the cartesian target
  \<open>(2000, 0, 0)\<close>, which lies outside the disc of radius \<open>l1 + l2 = 950\<close>, has been
  initialised.
\<close>

definition far_session :: segment_state where
  "far_session = snd (scara_segment_line 3 [Fin 2000, Fin 0, Fin 0] home_angles
                        \<lparr>rapid_motion = True\<rparr> True initial_state)"

text \<open>
  The relative angle \<open>\<beta>\<close> of the specification, \<open>atan2(l2 sin q12, l1 + l2 cos q12)\<close>, in
  degrees, as a function of the elbow angle \<open>d = q1 - q2\<close> in degrees.
\<close>

definition elbow_offset :: "real \<Rightarrow> real" where
  "elbow_offset d =
     atan2 (450 * sin (d * (pi / 180))) (500 + 450 * cos (d * (pi / 180))) * (180 / pi)"

text \<open>
  The stretched pose \<open>(0\<degree>, 0\<degree>)\<close>, at the cartesian point \<open>(950, 0)\<close>, and the folded pose
  \<open>(0\<degree>, 180\<degree>)\<close>, at \<open>(50, 0)\<close>. From the stretched pose: the statics after the first call
  (\<^verbatim>\<open>init = true\<close>) of a move to \<open>(800, 0)\<close>, inside the disc, and of a move to \<open>(1100, 0)\<close>,
  outside it; both moves are 150 mm long. From the folded pose: the statics after the
  first call with \<^verbatim>\<open>init = false\<close> of a move of two segments to \<open>(46, 0)\<close>, which lies inside
  the circle of radius \<open>l1 - l2 = 50\<close>.
\<close>

definition stretched_angles :: "cfloat list" where
  "stretched_angles = [Fin 0, Fin 0, Fin 0]"

definition folded_angles :: "cfloat list" where
  "folded_angles = [Fin 0, Fin 180, Fin 0]"

definition long_session :: segment_state where
  "long_session = snd (scara_segment_line 3 [Fin 800, Fin 0, Fin 0] stretched_angles
                         \<lparr>rapid_motion = False\<rparr> True initial_state)"

definition beyond_session :: segment_state where
  "beyond_session = snd (scara_segment_line 3 [Fin 1100, Fin 0, Fin 0] stretched_angles
                           \<lparr>rapid_motion = False\<rparr> True initial_state)"

definition hole_session :: segment_state where
  "hole_session =
     snd (next_call 3 (snd (scara_segment_line 3 [Fin 46, Fin 0, Fin 0] folded_angles
                              \<lparr>rapid_motion = False\<rparr> True initial_state)))"

text \<open>The three static arrays the segmenter reads hold \<open>n\<close> components each.\<close>

definition arrays_sized :: "nat \<Rightarrow> segment_state \<Rightarrow> bool" where
  "arrays_sized n s \<longleftrightarrow>
     length (current_position s) = n \<and> length (segment_target s) = n
     \<and> length (final_target s) = n"

text \<open>
  Settings with one step per degree and per millimetre on three axes, without forced
  origin.
\<close>

definition unit_settings :: settings_t where
  "unit_settings =
     \<lparr>steps_per_mm = [Fin 1, Fin 1, Fin 1], max_travel = [Fin (- 200), Fin (- 200), Fin (- 200)],
      homing_pulloff = Fin 1, force_set_origin = False, dir_mask = 0\<rparr>"

section \<open>Properties\<close>

text \<open>
  Arithmetic is exact in this embedding and rounded in the program. The statements below
  are therefore either conditional on the values the code computes (a computed distance,
  the Unreachable test of a computed point), or keep a margin from the inputs at which
  rounding could decide the outcome.
\<close>

subsection \<open>The copy loop and the cartesian-to-joint wrapper\<close>

declare copy_higher_axes.simps [simp del] calc_delta.simps [simp del]
  scale_delta.simps [simp del] add_delta.simps [simp del] machine_positions_loop.simps [simp del]

lemma length_copy_higher_axes [simp]: "length (copy_higher_axes idx dst src) = length dst"
proof (induction idx dst src rule: copy_higher_axes.induct)
  case (1 idx dst src)
  show ?case
    using 1 by (subst copy_higher_axes.simps) (simp add: Let_def)
qed

lemma nth_copy_higher_axes:
  "2 \<le> idx \<Longrightarrow> idx < length dst \<Longrightarrow>
   copy_higher_axes idx dst src ! i = (if 2 \<le> i \<and> i \<le> idx then src ! i else dst ! i)"
proof (induction idx dst src rule: copy_higher_axes.induct)
  case (1 idx dst src)
  show ?case
  proof (cases "idx - 1 > Y_AXIS")
    case True
    then have "copy_higher_axes idx dst src = copy_higher_axes (idx - 1) (dst[idx := src ! idx]) src"
      by (subst copy_higher_axes.simps) (simp add: Let_def)
    moreover have "copy_higher_axes (idx - 1) (dst[idx := src ! idx]) src ! i =
        (if 2 \<le> i \<and> i \<le> idx - 1 then src ! i else dst[idx := src ! idx] ! i)"
      using 1 True by (simp add: Y_AXIS_def)
    ultimately show ?thesis
      using 1(2,3) True by (auto simp: Y_AXIS_def nth_list_update)
  next
    case False
    then have "copy_higher_axes idx dst src = dst[idx := src ! idx]"
      by (subst copy_higher_axes.simps) (simp add: Let_def)
    then show ?thesis
      using 1(2,3) False by (auto simp: Y_AXIS_def nth_list_update)
  qed
qed

lemma from_cartesian_unreachable:
  "unreachable (xy_to_q (position_xy ! 0) (position_xy ! 1)) \<Longrightarrow>
   scara_transform_from_cartesian n target_q position_xy raised =
     (None, copy_higher_axes (n - 1) target_q position_xy, raised @ [Alarm_SoftLimit])"
  by (simp add: scara_transform_from_cartesian_def unreachable_def Let_def system_raise_alarm_def
      A_MOTOR_def B_MOTOR_def X_AXIS_def Y_AXIS_def)

lemma from_cartesian_reachable:
  "\<not> unreachable (xy_to_q (position_xy ! 0) (position_xy ! 1)) \<Longrightarrow>
   scara_transform_from_cartesian n target_q position_xy raised =
     (let buf = (copy_higher_axes (n - 1) target_q position_xy)
                  [0 := q_q1 (xy_to_q (position_xy ! 0) (position_xy ! 1)),
                   1 := q_q2 (xy_to_q (position_xy ! 0) (position_xy ! 1))]
      in (Some buf, buf, raised))"
  by (simp add: scara_transform_from_cartesian_def unreachable_def Let_def
      A_MOTOR_def B_MOTOR_def X_AXIS_def Y_AXIS_def)

lemma from_cartesian_None_iff:
  "fst (scara_transform_from_cartesian n target_q position_xy raised) = None
     \<longleftrightarrow> unreachable (xy_to_q (position_xy ! 0) (position_xy ! 1))"
  by (cases "unreachable (xy_to_q (position_xy ! 0) (position_xy ! 1))")
     (simp_all add: from_cartesian_unreachable from_cartesian_reachable Let_def)

lemma copy_higher_axes_2: "copy_higher_axes 2 dst src = dst[2 := src ! 2]"
  by (subst copy_higher_axes.simps) (simp add: Y_AXIS_def Let_def)

lemma xy_to_q_outside:
  "x\<^sup>2 + y\<^sup>2 > 902500 \<Longrightarrow> xy_to_q (Fin x) (Fin y) = \<lparr>q_q1 = NaN, q_q2 = NaN\<rparr>"
  by (simp add: xy_to_q_def machine_def SCARA_L1_def SCARA_L2_def power2_eq_square)

text \<open>
  C10. When the cartesian-to-joint wrapper returns \<^verbatim>\<open>NULL\<close>, it has raised the soft-limit
  alarm, every component of the caller's vector above the two driven axes holds the
  corresponding input value, and the two driven components are as they were before the
  call.
\<close>

theorem from_cartesian_unreachable_buffer:
  assumes "3 \<le> n" and "length target_q = n"
    and "scara_transform_from_cartesian n target_q position_xy raised = (None, buf, raised')"
  shows "raised' = raised @ [Alarm_SoftLimit]
    \<and> (\<forall>i. 2 \<le> i \<and> i < n \<longrightarrow> buf ! i = position_xy ! i)
    \<and> buf ! 0 = target_q ! 0 \<and> buf ! 1 = target_q ! 1 \<and> length buf = n"
proof -
  from assms(3) have "unreachable (xy_to_q (position_xy ! 0) (position_xy ! 1))"
    using from_cartesian_None_iff [of n target_q position_xy raised] by simp
  with assms(3) have buf: "buf = copy_higher_axes (n - 1) target_q position_xy"
    and raised: "raised' = raised @ [Alarm_SoftLimit]"
    by (simp_all add: from_cartesian_unreachable)
  have "buf ! i = (if 2 \<le> i \<and> i \<le> n - 1 then position_xy ! i else target_q ! i)" for i
    unfolding buf using assms(1,2) by (intro nth_copy_higher_axes) simp_all
  with raised assms(1,2) show ?thesis
    by (auto simp: buf)
qed

theorem from_cartesian_unreachable_buffer_witness:
  "scara_transform_from_cartesian 3 [Fin 1, Fin 2, Fin 3] [Fin 2000, Fin 0, Fin 7] []
     = (None, [Fin 1, Fin 2, Fin 7], [Alarm_SoftLimit])
   \<and> [Fin 1, Fin 2, Fin 7] ! 2 = [Fin 2000, Fin 0, Fin 7] ! (2::nat)
   \<and> [Fin 1, Fin 2, Fin 7] ! 0 = [Fin 1, Fin 2, Fin 3] ! (0::nat)
   \<and> [Fin 1, Fin 2, Fin 7] ! 1 = [Fin 1, Fin 2, Fin 3] ! (1::nat)"
proof -
  have n: "(3::nat) \<le> 3" by simp
  have len: "length [Fin 1, Fin 2, Fin 3] = 3" by simp
  have ev: "scara_transform_from_cartesian 3 [Fin 1, Fin 2, Fin 3] [Fin 2000, Fin 0, Fin 7] []
     = (None, [Fin 1, Fin 2, Fin 7], [Alarm_SoftLimit])"
    by (simp add: from_cartesian_unreachable xy_to_q_outside unreachable_def copy_higher_axes_2)
  note concl = from_cartesian_unreachable_buffer [OF n len ev]
  from concl have "2 \<le> (2::nat) \<and> (2::nat) < 3
      \<longrightarrow> [Fin 1, Fin 2, Fin 7] ! 2 = [Fin 2000, Fin 0, Fin 7] ! (2::nat)"
    by blast
  then have "[Fin 1, Fin 2, Fin 7] ! 2 = [Fin 2000, Fin 0, Fin 7] ! (2::nat)"
    by simp
  with ev concl show ?thesis
    by blast
qed

subsection \<open>The segmenter, field by field\<close>

lemma jog_cancel_segment_next [simp]: "jog_cancel (segment_next n s) = jog_cancel s"
  by (simp add: segment_next_def Let_def)

lemma iterations_segment_next [simp]: "iterations (segment_next n s) = iterations s - 1"
  by (simp add: segment_next_def Let_def)

lemma jog_cancel_segment_init [simp]: "jog_cancel (segment_init n target position plan_data s) = False"
  by (simp add: segment_init_def Let_def)

lemma fst_scara_segment_line:
  "fst (scara_segment_line n target position plan_data init s) =
     (let s' = (if init then segment_init n target position plan_data s else segment_next n s)
      in if iterations s' = 0 \<or> jog_cancel s' then None
         else Some (fst (snd (scara_transform_from_cartesian n (current_position s')
                                (segment_target s') (raised_alarms s')))))"
  by (simp add: scara_segment_line_def Let_def case_prod_beta)

lemma snd_scara_segment_line:
  "snd (scara_segment_line n target position plan_data init s) =
     (let s' = (if init then segment_init n target position plan_data s else segment_next n s);
          r = scara_transform_from_cartesian n (current_position s') (segment_target s')
                (raised_alarms s')
      in s'\<lparr>current_position := fst (snd r), raised_alarms := snd (snd r)\<rparr>)"
  by (simp add: scara_segment_line_def Let_def case_prod_beta)

text \<open>
  C6. Once \<open>cancel_jog\<close> has run, the next call with \<^verbatim>\<open>init = false\<close> returns \<^verbatim>\<open>NULL\<close>,
  whatever the remaining iteration count; and every call with \<^verbatim>\<open>init = true\<close> leaves
  \<^verbatim>\<open>jog_cancel\<close> cleared.
\<close>

theorem cancel_terminates_and_init_resets:
  "fst (scara_segment_line n target position plan_data False (cancel_jog s)) = None
   \<and> jog_cancel (snd (scara_segment_line n target' position' plan_data' True s)) = False"
  by (simp add: fst_scara_segment_line snd_scara_segment_line cancel_jog_def Let_def)

lemma iterations_segment_init:
  "iterations (segment_init n target position plan_data s) =
     (if \<not> rapid_motion plan_data \<and> move_distance n target position s > MAX_SEG_LENGTH_MM
      then float_to_uint_fast16 (ceilf (move_distance n target position s / MAX_SEG_LENGTH_MM))
      else 1) + 1"
  by (simp add: segment_init_def Let_def move_distance_def start_cartesian_def)

lemma do_segments_segment_init:
  "do_segments (segment_init n target position plan_data s) =
     (\<not> rapid_motion plan_data \<and> move_distance n target position s > MAX_SEG_LENGTH_MM)"
  by (simp add: segment_init_def Let_def move_distance_def start_cartesian_def)

lemma final_target_segment_init [simp]:
  "final_target (segment_init n target position plan_data s) = target"
  by (simp add: segment_init_def Let_def)

lemma current_position_segment_init:
  "current_position (segment_init n target position plan_data s) = start_cartesian n position s"
  by (simp add: segment_init_def Let_def start_cartesian_def)

lemma segment_target_segment_init:
  "segment_target (segment_init n target position plan_data s) =
     (if do_segments (segment_init n target position plan_data s)
      then start_cartesian n position s else target)"
  by (simp add: segment_init_def Let_def start_cartesian_def)

lemma raised_alarms_segment_init [simp]:
  "raised_alarms (segment_init n target position plan_data s) = raised_alarms s"
  by (simp add: segment_init_def Let_def)

lemma q_to_xy_home: "q_to_xy (Fin 0) (Fin (- 90)) = \<lparr>xy_x = Fin 500, xy_y = Fin (- 450)\<rparr>"
  by (simp add: q_to_xy_def machine_def SCARA_L1_def SCARA_L2_def RADDEG_def)

lemma to_cartesian_3:
  "scara_transform_to_cartesian 3 coords angles =
     coords[2 := angles ! 2, 0 := xy_x (q_to_xy (angles ! 0) (angles ! 1)),
            1 := xy_y (q_to_xy (angles ! 0) (angles ! 1))]"
  by (simp add: scara_transform_to_cartesian_def copy_higher_axes_2 Let_def
      A_MOTOR_def B_MOTOR_def X_AXIS_def Y_AXIS_def)

lemma calc_delta_3:
  "calc_delta 3 target cur dlt =
     dlt[2 := target ! 2 - cur ! 2, 1 := target ! 1 - cur ! 1, 0 := target ! 0 - cur ! 0]"
  by (simp add: calc_delta.simps [of 3] calc_delta.simps [of 2] calc_delta.simps [of "Suc 0"] Let_def)

subsection \<open>The length of a session\<close>

lemma iterations_next_call [simp]: "iterations (snd (next_call n s)) = iterations s - 1"
  by (simp add: next_call_def snd_scara_segment_line Let_def)

lemma jog_cancel_next_call [simp]: "jog_cancel (snd (next_call n s)) = jog_cancel s"
  by (simp add: next_call_def snd_scara_segment_line Let_def)

lemma next_call_None_iff:
  "fst (next_call n s) = None \<longleftrightarrow> iterations s - 1 = 0 \<or> jog_cancel s"
  by (simp add: next_call_def fst_scara_segment_line Let_def)

lemma iterations_after_next_calls:
  "iterations (after_next_calls n k s) = iterations s - of_nat k"
  by (induction k arbitrary: s) simp_all

lemma jog_cancel_after_next_calls [simp]:
  "jog_cancel (after_next_calls n k s) = jog_cancel s"
  by (induction k arbitrary: s) simp_all

lemma countdown_word:
  fixes m :: nat
  assumes "m < 2 ^ 32" and "k < m"
  shows "(of_nat m :: 32 word) - of_nat k \<noteq> 0"
proof -
  have eq: "(of_nat m :: 32 word) - of_nat k = of_nat (m - k)"
    using assms by (simp add: of_nat_diff)
  have "\<not> (2 :: nat) ^ 32 dvd (m - k)"
    using assms by (intro nat_dvd_not_less) simp_all
  then have "(of_nat (m - k) :: 32 word) \<noteq> 0"
    unfolding word_of_nat_eq_0_iff by simp
  then show ?thesis
    unfolding eq .
qed

lemma session_length:
  fixes m :: nat
  assumes "iterations s = of_nat m" and "m < 2 ^ 32" and "\<not> jog_cancel s"
  shows "(\<forall>k. Suc k < m \<longrightarrow> fst (next_call n (after_next_calls n k s)) \<noteq> None)"
    and "0 < m \<Longrightarrow> fst (next_call n (after_next_calls n (m - 1) s)) = None"
proof -
  show "\<forall>k. Suc k < m \<longrightarrow> fst (next_call n (after_next_calls n k s)) \<noteq> None"
  proof (intro allI impI)
    fix k assume "Suc k < m"
    then have "(of_nat m :: 32 word) - of_nat (Suc k) \<noteq> 0"
      using assms(2) by (intro countdown_word) simp_all
    then show "fst (next_call n (after_next_calls n k s)) \<noteq> None"
      using assms by (simp add: next_call_None_iff iterations_after_next_calls algebra_simps)
  qed
  show "fst (next_call n (after_next_calls n (m - 1) s)) = None" if "0 < m"
  proof -
    have "(of_nat m :: 32 word) - of_nat (m - 1) - 1 = 0"
      using that by (simp add: of_nat_diff)
    then show ?thesis
      using assms by (simp add: next_call_None_iff iterations_after_next_calls)
  qed
qed

lemma initial_state_simps [simp]:
  "jog_cancel initial_state = False" "do_segments initial_state = False"
  "iterations initial_state = 0" "delta initial_state = [Fin 0, Fin 0, Fin 0]"
  "segment_target initial_state = [Fin 0, Fin 0, Fin 0]"
  "current_position initial_state = [Fin 0, Fin 0, Fin 0]"
  "final_target initial_state = [Fin 0, Fin 0, Fin 0]" "raised_alarms initial_state = []"
  by (simp_all add: initial_state_def)

lemma start_cartesian_home:
  "start_cartesian 3 home_angles initial_state = [Fin 500, Fin (- 450), Fin 0]"
  by (simp add: start_cartesian_def to_cartesian_3 home_angles_def q_to_xy_home)

lemma sqrt_22500: "sqrt 22500 = 150"
  by (rule real_sqrt_unique) simp_all

subsection \<open>A target out of reach during a session\<close>

lemma init_far_state:
  "segment_init 3 [Fin 2000, Fin 0, Fin 0] home_angles \<lparr>rapid_motion = True\<rparr> initial_state =
     \<lparr>jog_cancel = False, do_segments = False, iterations = 2,
      delta = [Fin 1500, Fin 450, Fin 0], segment_target = [Fin 2000, Fin 0, Fin 0],
      current_position = [Fin 500, Fin (- 450), Fin 0], final_target = [Fin 2000, Fin 0, Fin 0],
      raised_alarms = []\<rparr>"
  using start_cartesian_home
  by (simp add: segment_init_def Let_def start_cartesian_def calc_delta_3 initial_state_def)

lemma far_session_eq:
  "far_session =
     \<lparr>jog_cancel = False, do_segments = False, iterations = 2,
      delta = [Fin 1500, Fin 450, Fin 0], segment_target = [Fin 2000, Fin 0, Fin 0],
      current_position = [Fin 500, Fin (- 450), Fin 0], final_target = [Fin 2000, Fin 0, Fin 0],
      raised_alarms = [Alarm_SoftLimit]\<rparr>"
  by (simp add: far_session_def snd_scara_segment_line init_far_state Let_def
      from_cartesian_unreachable unreachable_def xy_to_q_outside copy_higher_axes_2)

text \<open>
  C1. In the session \<open>far_session\<close> two iterations remain and \<^verbatim>\<open>jog_cancel\<close> is clear. The
  next call with \<^verbatim>\<open>init = false\<close> sets the segment target to the final target, whose
  inverse transform is out of reach; the call raises the soft-limit alarm, and what it
  returns is not \<^verbatim>\<open>NULL\<close> but \<^verbatim>\<open>current_position.values\<close>, which still holds the
  cartesian start position.
\<close>

theorem unreachable_next_returns_waypoint:
  "iterations far_session = 2 \<and> jog_cancel far_session = False
   \<and> segment_target (segment_next 3 far_session) = [Fin 2000, Fin 0, Fin 0]
   \<and> unreachable (xy_to_q (Fin 2000) (Fin 0))
   \<and> next_call 3 far_session =
       (Some [Fin 500, Fin (- 450), Fin 0],
        far_session\<lparr>iterations := 1, raised_alarms := [Alarm_SoftLimit, Alarm_SoftLimit]\<rparr>)"
  by (simp add: far_session_eq segment_next_def next_call_def scara_segment_line_def Let_def
      from_cartesian_unreachable unreachable_def xy_to_q_outside copy_higher_axes_2)



subsection \<open>The angle of a point\<close>

lemma sqrt_one_plus_ratio:
  fixes x y :: real
  assumes "x \<noteq> 0"
  shows "sqrt (1 + (y / x)\<^sup>2) = sqrt (x\<^sup>2 + y\<^sup>2) / \<bar>x\<bar>"
proof -
  have "1 + (y / x)\<^sup>2 = (x\<^sup>2 + y\<^sup>2) / x\<^sup>2"
    using assms by (simp add: field_simps power2_eq_square)
  then show ?thesis
    by (simp add: real_sqrt_divide)
qed

lemma atan2_polar:
  fixes x y :: real
  assumes "x \<noteq> 0 \<or> y \<noteq> 0"
  shows "sqrt (x\<^sup>2 + y\<^sup>2) * cos (atan2 y x) = x"
    and "sqrt (x\<^sup>2 + y\<^sup>2) * sin (atan2 y x) = y"
proof -
  have pos: "0 < sqrt (x\<^sup>2 + y\<^sup>2)"
    using assms by (auto simp: sum_power2_gt_zero_iff)
  consider "0 < x" | "x < 0" "0 \<le> y" | "x < 0" "y < 0" | "x = 0" "0 < y" | "x = 0" "y < 0"
    using assms by fastforce
  then have "sqrt (x\<^sup>2 + y\<^sup>2) * cos (atan2 y x) = x \<and> sqrt (x\<^sup>2 + y\<^sup>2) * sin (atan2 y x) = y"
  proof cases
    case 1
    then show ?thesis
      using pos by (simp add: atan2_def cos_arctan sin_arctan sqrt_one_plus_ratio)
  next
    case 2
    then show ?thesis
      using pos by (simp add: atan2_def cos_arctan sin_arctan sqrt_one_plus_ratio)
  next
    case 3
    then show ?thesis
      using pos by (simp add: atan2_def cos_arctan sin_arctan sqrt_one_plus_ratio cos_diff sin_diff)
  next
    case 4
    then show ?thesis by (simp add: atan2_def)
  next
    case 5
    then show ?thesis by (simp add: atan2_def)
  qed
  then show "sqrt (x\<^sup>2 + y\<^sup>2) * cos (atan2 y x) = x"
    and "sqrt (x\<^sup>2 + y\<^sup>2) * sin (atan2 y x) = y"
    by simp_all
qed

lemma atan2_bounds: "- pi < atan2 y x \<and> atan2 y x \<le> pi"
proof -
  have "- (pi / 2) < arctan (y / x)" "arctan (y / x) < pi / 2"
    using arctan_lbound [of "y / x"] arctan_ubound [of "y / x"] by blast+
  moreover have "x < 0 \<Longrightarrow> 0 \<le> y \<Longrightarrow> arctan (y / x) \<le> 0"
    by (simp add: divide_nonneg_neg)
  moreover have "x < 0 \<Longrightarrow> y < 0 \<Longrightarrow> 0 < arctan (y / x)"
    by (simp add: divide_neg_neg)
  ultimately show ?thesis
    using pi_gt_zero by (auto simp: atan2_def)
qed

lemma sin_cos_principal_unique:
  fixes a b :: real
  assumes "cos a = cos b" "sin a = sin b" "- pi < a" "a \<le> pi" "- pi < b" "b \<le> pi"
  shows "a = b"
proof -
  have "cos (a - b) = 1"
    using assms(1,2) sin_cos_squared_add [of b] by (simp add: cos_diff power2_eq_square algebra_simps)
  then obtain k :: int where k: "a - b = of_int k * 2 * pi"
    using cos_one_2pi_int by blast
  have "\<bar>a - b\<bar> < 2 * pi"
    using assms(3-6) by linarith
  with k have "\<bar>of_int k * (2 * pi)\<bar> < 1 * (2 * pi)"
    by (simp add: mult.assoc)
  then have "\<bar>real_of_int k\<bar> < 1"
    using pi_gt_zero by (simp add: abs_mult)
  then have "k = 0" by linarith
  with k show ?thesis by simp
qed

lemma sin_cos_not_both_zero: fixes t :: real shows "cos t \<noteq> 0 \<or> sin t \<noteq> 0"
proof (rule ccontr)
  assume "\<not> (cos t \<noteq> 0 \<or> sin t \<noteq> 0)"
  then have "(sin t)\<^sup>2 + (cos t)\<^sup>2 = 0" by simp
  then show False by (simp only: sin_cos_squared_add)
qed

lemma sqrt_polar: fixes r t :: real assumes "0 < r"
  shows "sqrt ((r * cos t)\<^sup>2 + (r * sin t)\<^sup>2) = r"
proof -
  have "(r * cos t)\<^sup>2 + (r * sin t)\<^sup>2 = r\<^sup>2 * ((cos t)\<^sup>2 + (sin t)\<^sup>2)"
    by (simp only: power_mult_distrib distrib_left)
  also have "\<dots> = r\<^sup>2"
    by (simp only: sin_cos_squared_add2 mult_1_right)
  finally show ?thesis
    using assms by simp
qed

lemma atan2_unique:
  fixes r t :: real
  assumes "0 < r" "- pi < t" "t \<le> pi"
  shows "atan2 (r * sin t) (r * cos t) = t"
proof -
  define a where "a = atan2 (r * sin t) (r * cos t)"
  have nz: "r * cos t \<noteq> 0 \<or> r * sin t \<noteq> 0"
    using assms(1) sin_cos_not_both_zero [of t] by simp
  have rnz: "r \<noteq> 0"
    using assms(1) by simp
  have p1: "r * cos a = r * cos t"
    using atan2_polar(1) [OF nz] unfolding sqrt_polar [OF assms(1)] a_def .
  have p2: "r * sin a = r * sin t"
    using atan2_polar(2) [OF nz] unfolding sqrt_polar [OF assms(1)] a_def .
  have c: "cos a = cos t"
    using p1 unfolding mult_left_cancel [OF rnz] .
  have s: "sin a = sin t"
    using p2 unfolding mult_left_cancel [OF rnz] .
  have b1: "- pi < a"
    unfolding a_def by (rule atan2_bounds [THEN conjunct1])
  have b2: "a \<le> pi"
    unfolding a_def by (rule atan2_bounds [THEN conjunct2])
  have "a = t"
    by (rule sin_cos_principal_unique [OF c s b1 b2 assms(2,3)])
  then show ?thesis
    unfolding a_def .
qed

subsection \<open>The inverse transform in closed form\<close>

lemma elbow_cos_range:
  "- 1 \<le> elbow_cos x y \<longleftrightarrow> 2500 \<le> x\<^sup>2 + y\<^sup>2"
  "elbow_cos x y \<le> 1 \<longleftrightarrow> x\<^sup>2 + y\<^sup>2 \<le> 902500"
  by (simp_all add: elbow_cos_def field_simps)

lemma xy_to_q_annulus:
  assumes "2500 \<le> x\<^sup>2 + y\<^sup>2" "x\<^sup>2 + y\<^sup>2 \<le> 902500"
  shows "xy_to_q (Fin x) (Fin y) =
           \<lparr>q_q1 = Fin ((atan2 y x + elbow_beta x y) * (180 / pi)),
            q_q2 = Fin ((atan2 y x + elbow_beta x y + - arccos (elbow_cos x y)) * (180 / pi))\<rparr>"
proof -
  have c: "(x * x + y * y - 452500) / 450000 = elbow_cos x y"
    by (simp add: elbow_cos_def power2_eq_square)
  have r: "\<not> 902500 < x * x + y * y"
    using assms(2) by (simp add: power2_eq_square)
  have "- 1 \<le> elbow_cos x y" "elbow_cos x y \<le> 1"
    using assms by (simp_all add: elbow_cos_range)
  then show ?thesis
    using r by (simp add: xy_to_q_def machine_def SCARA_L1_def SCARA_L2_def DEGRAD_def Let_def c
        elbow_beta_def)
qed

lemma xy_to_q_hole:
  assumes "x\<^sup>2 + y\<^sup>2 < 2500"
  shows "xy_to_q (Fin x) (Fin y) = \<lparr>q_q1 = NaN, q_q2 = NaN\<rparr>"
proof -
  have c: "(x * x + y * y - 452500) / 450000 = elbow_cos x y"
    by (simp add: elbow_cos_def power2_eq_square)
  have r: "\<not> 902500 < x * x + y * y"
    using assms by (simp add: power2_eq_square)
  have "\<not> - 1 \<le> elbow_cos x y"
    using assms by (simp add: elbow_cos_range)
  then show ?thesis
    using r by (simp add: xy_to_q_def machine_def SCARA_L1_def SCARA_L2_def DEGRAD_def Let_def c)
qed

lemma unreachable_iff:
  "unreachable (xy_to_q (Fin x) (Fin y)) \<longleftrightarrow> x\<^sup>2 + y\<^sup>2 > 902500 \<or> x\<^sup>2 + y\<^sup>2 < 2500"
proof -
  consider "x\<^sup>2 + y\<^sup>2 > 902500" | "x\<^sup>2 + y\<^sup>2 < 2500"
    | "2500 \<le> x\<^sup>2 + y\<^sup>2" "x\<^sup>2 + y\<^sup>2 \<le> 902500"
    by linarith
  then show ?thesis
  proof cases
    case 1
    then show ?thesis by (simp add: xy_to_q_outside unreachable_def)
  next
    case 2
    then show ?thesis by (simp add: xy_to_q_hole unreachable_def)
  next
    case 3
    then show ?thesis by (simp add: xy_to_q_annulus unreachable_def)
  qed
qed

subsection \<open>Forward after inverse, inverse after forward\<close>

lemma q_to_xy_Fin:
  "q_to_xy (Fin a) (Fin b) =
     \<lparr>xy_x = Fin (500 * cos (a * (pi / 180)) + 450 * cos (b * (pi / 180))),
      xy_y = Fin (500 * sin (a * (pi / 180)) + 450 * sin (b * (pi / 180)))\<rparr>"
  by (simp add: q_to_xy_def machine_def SCARA_L1_def SCARA_L2_def RADDEG_def)

lemma deg_rad [simp]: "t * (180 / pi) * (pi / 180) = t"
  by simp

lemma rad_deg [simp]: "t * (pi / 180) * (180 / pi) = t"
  by simp

text \<open>The triangle of the two links: \<open>A = l1 + l2 cos q12\<close>, \<open>B = l2 sin q12\<close>.\<close>

lemma elbow_triangle:
  assumes "2500 \<le> x\<^sup>2 + y\<^sup>2" "x\<^sup>2 + y\<^sup>2 \<le> 902500"
  defines "c \<equiv> elbow_cos x y"
  defines "r \<equiv> sqrt (x\<^sup>2 + y\<^sup>2)"
  shows "r * cos (elbow_beta x y) = 500 + 450 * c"
    and "r * sin (elbow_beta x y) = 450 * sin (arccos c)"
    and "0 < r"
proof -
  have c1: "- 1 \<le> c" and c2: "c \<le> 1"
    using assms(1,2) unfolding c_def by (simp_all add: elbow_cos_range)
  define A where "A = 500 + 450 * c"
  define B where "B = 450 * sin (arccos c)"
  have "(sin (arccos c))\<^sup>2 = 1 - c\<^sup>2"
    using c1 c2 by (simp add: sin_squared_eq)
  then have B2: "B\<^sup>2 = 202500 * (1 - c\<^sup>2)"
    by (simp add: B_def power_mult_distrib)
  have A2: "A\<^sup>2 = 250000 + 450000 * c + 202500 * c\<^sup>2"
    by (simp add: A_def power2_eq_square algebra_simps)
  have "452500 + 450000 * c = x\<^sup>2 + y\<^sup>2"
    unfolding c_def elbow_cos_def by (simp add: field_simps)
  with A2 B2 have sum: "A\<^sup>2 + B\<^sup>2 = x\<^sup>2 + y\<^sup>2"
    by (simp add: algebra_simps)
  show pos: "0 < r"
    using assms(1) unfolding r_def by simp
  have "0 < A\<^sup>2 + B\<^sup>2"
    unfolding sum using assms(1) by linarith
  then have nz: "A \<noteq> 0 \<or> B \<noteq> 0"
    by (simp only: sum_power2_gt_zero_iff)
  have beta: "elbow_beta x y = atan2 B A"
    by (simp add: elbow_beta_def A_def B_def c_def)
  have "r * cos (atan2 B A) = A" "r * sin (atan2 B A) = B"
    using atan2_polar [OF nz] unfolding sum r_def .
  then show "r * cos (elbow_beta x y) = 500 + 450 * c"
    and "r * sin (elbow_beta x y) = 450 * sin (arccos c)"
    unfolding beta unfolding A_def B_def .
qed

lemma forward_norm:
  fixes a b :: real
  shows "(500 * cos a + 450 * cos b)\<^sup>2 + (500 * sin a + 450 * sin b)\<^sup>2
           = 452500 + 450000 * cos (a - b)"
proof -
  have "(500 * cos a + 450 * cos b)\<^sup>2 + (500 * sin a + 450 * sin b)\<^sup>2
      = 250000 * ((sin a)\<^sup>2 + (cos a)\<^sup>2) + 202500 * ((sin b)\<^sup>2 + (cos b)\<^sup>2)
        + 450000 * (cos a * cos b + sin a * sin b)"
    by (simp add: power2_sum power_mult_distrib cos_squared_eq algebra_simps)
  also have "\<dots> = 452500 + 450000 * cos (a - b)"
    by (simp add: cos_diff)
  finally show ?thesis .
qed

lemma forward_in_annulus:
  fixes a b :: real
  defines "x \<equiv> 500 * cos a + 450 * cos b" and "y \<equiv> 500 * sin a + 450 * sin b"
  shows "2500 \<le> x\<^sup>2 + y\<^sup>2" and "x\<^sup>2 + y\<^sup>2 \<le> 902500"
proof -
  have "- 1 \<le> cos (a - b)" "cos (a - b) \<le> 1"
    by simp_all
  then show "2500 \<le> x\<^sup>2 + y\<^sup>2" and "x\<^sup>2 + y\<^sup>2 \<le> 902500"
    unfolding x_def y_def forward_norm by linarith+
qed

lemma inverse_forward_polar:
  fixes a b :: real
  defines "\<beta> \<equiv> atan2 (450 * sin (a - b)) (500 + 450 * cos (a - b))"
  assumes "0 \<le> a - b" "a - b \<le> pi" and lo: "- pi < a - \<beta>" and hi: "a - \<beta> \<le> pi"
  defines "x \<equiv> 500 * cos a + 450 * cos b" and "y \<equiv> 500 * sin a + 450 * sin b"
  shows "arccos (elbow_cos x y) = a - b" and "atan2 y x + elbow_beta x y = a"
proof -
  define d where "d = a - b"
  define r where "r = sqrt (x\<^sup>2 + y\<^sup>2)"
  have norm: "x\<^sup>2 + y\<^sup>2 = 452500 + 450000 * cos d"
    unfolding x_def y_def d_def by (rule forward_norm)
  have c: "elbow_cos x y = cos (a - b)"
    unfolding elbow_cos_def norm d_def by simp
  have acc: "arccos (cos (a - b)) = a - b"
    using assms(2,3) by (rule arccos_cos)
  show ac: "arccos (elbow_cos x y) = a - b"
    unfolding c by (rule acc)
  have ann: "2500 \<le> x\<^sup>2 + y\<^sup>2" "x\<^sup>2 + y\<^sup>2 \<le> 902500"
    unfolding x_def y_def by (rule forward_in_annulus)+
  have eb: "elbow_beta x y = \<beta>"
    unfolding \<beta>_def elbow_beta_def c acc ..
  have tri: "r * cos \<beta> = 500 + 450 * cos d" "r * sin \<beta> = 450 * sin d" and pos: "0 < r"
    using elbow_triangle [OF ann] unfolding eb unfolding c acc r_def d_def .
  have bd: "b = a - d"
    by (simp add: d_def)
  have "x = cos a * (500 + 450 * cos d) + sin a * (450 * sin d)"
    unfolding x_def bd cos_diff by (simp add: algebra_simps)
  also have "\<dots> = r * (cos a * cos \<beta> + sin a * sin \<beta>)"
    unfolding tri [symmetric] by (simp add: algebra_simps)
  also have "\<dots> = r * cos (a - \<beta>)"
    by (simp only: cos_diff)
  finally have x: "x = r * cos (a - \<beta>)" .
  have "y = sin a * (500 + 450 * cos d) - cos a * (450 * sin d)"
    unfolding y_def bd sin_diff by (simp add: algebra_simps)
  also have "\<dots> = r * (sin a * cos \<beta> - cos a * sin \<beta>)"
    unfolding tri [symmetric] by (simp add: algebra_simps)
  also have "\<dots> = r * sin (a - \<beta>)"
    by (simp only: sin_diff)
  finally have y: "y = r * sin (a - \<beta>)" .
  have "atan2 y x = a - \<beta>"
    unfolding x y by (rule atan2_unique [OF pos lo hi])
  then show "atan2 y x + elbow_beta x y = a"
    unfolding eb by simp
qed

lemma inverse_forward_degrees:
  fixes q1 q2 :: real
  assumes "0 \<le> q1 - q2" "q1 - q2 \<le> 180"
    and "- 180 < q1 - elbow_offset (q1 - q2)" "q1 - elbow_offset (q1 - q2) \<le> 180"
  shows "xy_to_q (xy_x (q_to_xy (Fin q1) (Fin q2))) (xy_y (q_to_xy (Fin q1) (Fin q2)))
           = \<lparr>q_q1 = Fin q1, q_q2 = Fin q2\<rparr>"
proof -
  define a where "a = q1 * (pi / 180)"
  define b where "b = q2 * (pi / 180)"
  define x where "x = 500 * cos a + 450 * cos b"
  define y where "y = 500 * sin a + 450 * sin b"
  define \<beta> where "\<beta> = atan2 (450 * sin (a - b)) (500 + 450 * cos (a - b))"
  have k: "0 \<le> pi / 180" and k': "0 < pi / 180"
    using pi_gt_zero by simp_all
  have diff: "a - b = (q1 - q2) * (pi / 180)"
    by (simp add: a_def b_def algebra_simps)
  have "0 * (pi / 180) \<le> (q1 - q2) * (pi / 180)" "(q1 - q2) * (pi / 180) \<le> 180 * (pi / 180)"
    using assms(1,2) k by (intro mult_right_mono; simp)+
  then have d: "0 \<le> a - b" "a - b \<le> pi"
    unfolding diff by simp_all
  have off: "elbow_offset (q1 - q2) = \<beta> * (180 / pi)"
    unfolding elbow_offset_def \<beta>_def diff ..
  define t where "t = q1 - elbow_offset (q1 - q2)"
  have at: "a - \<beta> = t * (pi / 180)"
    unfolding t_def off a_def by (simp add: algebra_simps)
  have "- 180 * (pi / 180) < t * (pi / 180)"
    using assms(3) k' unfolding t_def by (intro mult_strict_right_mono; simp)
  then have lo: "- pi < a - \<beta>"
    unfolding at by simp
  have "t * (pi / 180) \<le> 180 * (pi / 180)"
    using assms(4) k unfolding t_def by (intro mult_right_mono; simp)
  then have hi: "a - \<beta> \<le> pi"
    unfolding at by simp
  note inv = inverse_forward_polar [OF d lo [unfolded \<beta>_def] hi [unfolded \<beta>_def],
      folded x_def y_def]
  have ann: "2500 \<le> x\<^sup>2 + y\<^sup>2" "x\<^sup>2 + y\<^sup>2 \<le> 902500"
    unfolding x_def y_def by (rule forward_in_annulus)+
  have deg: "a * (180 / pi) = q1" "(a + - (a - b)) * (180 / pi) = q2"
    by (simp_all add: a_def b_def)
  have "q_to_xy (Fin q1) (Fin q2) = \<lparr>xy_x = Fin x, xy_y = Fin y\<rparr>"
    unfolding q_to_xy_Fin x_def y_def a_def b_def ..
  then have "xy_to_q (xy_x (q_to_xy (Fin q1) (Fin q2))) (xy_y (q_to_xy (Fin q1) (Fin q2)))
      = xy_to_q (Fin x) (Fin y)"
    by simp
  also have "\<dots> = \<lparr>q_q1 = Fin (a * (180 / pi)), q_q2 = Fin ((a + - (a - b)) * (180 / pi))\<rparr>"
    unfolding xy_to_q_annulus [OF ann] inv(2) inv(1) ..
  finally show ?thesis
    unfolding deg .
qed

subsection \<open>Reachability and the formula of the inverse transform\<close>

text \<open>
  C2, as stated, fails at the origin: the point \<open>(0, 0)\<close> lies inside the disc of radius
  \<open>l1 + l2\<close>, and inside the disc of radius \<open>l1 - l2\<close>, and its inverse transform is NaN. The
  ratio there is \<open>- 452500 / 450000 < -1\<close> and goes to \<^verbatim>\<open>acosf\<close> unclamped.
\<close>

theorem reachability_counterexample:
  "unreachable (xy_to_q (Fin 0) (Fin 0)) \<and> \<not> (0::real)\<^sup>2 + 0\<^sup>2 > (500 + 450)\<^sup>2
   \<and> (0::real)\<^sup>2 + 0\<^sup>2 < (500 - 450)\<^sup>2"
  by (simp add: xy_to_q_hole unreachable_def)

text \<open>
  C2, amended. With a margin of 1 (square millimetre) at either boundary, which is above
  what rounding can move \<open>x\<^sup>2 + y\<^sup>2\<close> by at these magnitudes: for finite \<open>(x, y)\<close> the inverse
  transform is out of reach (NaN) when \<open>x\<^sup>2 + y\<^sup>2 \<ge> (l1 + l2)\<^sup>2 + 1\<close> and also when
  \<open>x\<^sup>2 + y\<^sup>2 \<le> (l1 - l2)\<^sup>2 - 1\<close>, and it returns two numbers when
  \<open>(l1 - l2)\<^sup>2 + 1 \<le> x\<^sup>2 + y\<^sup>2 \<le> (l1 + l2)\<^sup>2 - 1\<close>.
\<close>

theorem reachability_margin:
  "(x\<^sup>2 + y\<^sup>2 \<ge> (500 + 450)\<^sup>2 + 1 \<longrightarrow> unreachable (xy_to_q (Fin x) (Fin y)))
   \<and> (x\<^sup>2 + y\<^sup>2 \<le> (500 - 450)\<^sup>2 - 1 \<longrightarrow> unreachable (xy_to_q (Fin x) (Fin y)))
   \<and> ((500 - 450)\<^sup>2 + 1 \<le> x\<^sup>2 + y\<^sup>2 \<and> x\<^sup>2 + y\<^sup>2 \<le> (500 + 450)\<^sup>2 - 1
        \<longrightarrow> \<not> unreachable (xy_to_q (Fin x) (Fin y)))"
  using unreachable_iff [of x y] by auto

theorem reachability_margin_witness:
  "(1000::real)\<^sup>2 + 0\<^sup>2 \<ge> (500 + 450)\<^sup>2 + 1 \<and> unreachable (xy_to_q (Fin 1000) (Fin 0))
   \<and> (10::real)\<^sup>2 + 0\<^sup>2 \<le> (500 - 450)\<^sup>2 - 1 \<and> unreachable (xy_to_q (Fin 10) (Fin 0))
   \<and> (500 - 450)\<^sup>2 + 1 \<le> (500::real)\<^sup>2 + (- 450)\<^sup>2
   \<and> (500::real)\<^sup>2 + (- 450)\<^sup>2 \<le> (500 + 450)\<^sup>2 - 1
   \<and> unreachable (xy_to_q (Fin 500) (Fin (- 450))) = False"
proof -
  have a: "(1000::real)\<^sup>2 + 0\<^sup>2 \<ge> (500 + 450)\<^sup>2 + 1"
    and b: "(10::real)\<^sup>2 + 0\<^sup>2 \<le> (500 - 450)\<^sup>2 - 1"
    and c: "(500 - 450)\<^sup>2 + 1 \<le> (500::real)\<^sup>2 + (- 450)\<^sup>2
            \<and> (500::real)\<^sup>2 + (- 450)\<^sup>2 \<le> (500 + 450)\<^sup>2 - 1"
    by simp_all
  note ra = reachability_margin [of 1000 0, THEN conjunct1, rule_format, OF a]
  note rb = reachability_margin [of 10 0, THEN conjunct2, THEN conjunct1, rule_format, OF b]
  note rc = reachability_margin [of 500 "- 450", THEN conjunct2, THEN conjunct2, rule_format, OF c]
  from rc have rc': "unreachable (xy_to_q (Fin 500) (Fin (- 450))) = False"
    by simp
  from a ra b rb c rc' show ?thesis
    by blast
qed

text \<open>
  C7. On the disc \<open>x\<^sup>2 + y\<^sup>2 \<le> (l1 + l2)\<^sup>2\<close> the inverse transform of the source is the
  elbow-up, absolute-\<open>q2\<close> formula of the specification, in degrees. (Inside the inner disc
  both are NaN.)
\<close>

theorem inverse_formula:
  assumes "x\<^sup>2 + y\<^sup>2 \<le> (500 + 450)\<^sup>2"
  shows "xy_to_q (Fin x) (Fin y) = elbow_up_absolute 500 450 x y"
proof (cases "2500 \<le> x\<^sup>2 + y\<^sup>2")
  case True
  have le: "x\<^sup>2 + y\<^sup>2 \<le> 902500"
    using assms by simp
  have c: "(x\<^sup>2 + y\<^sup>2 - 452500) / 450000 = elbow_cos x y"
    by (simp add: elbow_cos_def)
  have "- 1 \<le> elbow_cos x y" "elbow_cos x y \<le> 1"
    using True le by (simp_all add: elbow_cos_range)
  then have "elbow_up_absolute 500 450 x y =
           \<lparr>q_q1 = Fin ((atan2 y x + elbow_beta x y) * (180 / pi)),
            q_q2 = Fin ((atan2 y x + elbow_beta x y + - arccos (elbow_cos x y)) * (180 / pi))\<rparr>"
    by (simp add: elbow_up_absolute_def Let_def c elbow_beta_def)
  then show ?thesis
    by (simp only: xy_to_q_annulus [OF True le])
next
  case False
  then have hole: "x\<^sup>2 + y\<^sup>2 < 2500"
    by simp
  have c: "(x\<^sup>2 + y\<^sup>2 - 452500) / 450000 = elbow_cos x y"
    by (simp add: elbow_cos_def)
  have "\<not> - 1 \<le> elbow_cos x y"
    using hole by (simp add: elbow_cos_range)
  then have "elbow_up_absolute 500 450 x y = \<lparr>q_q1 = NaN, q_q2 = NaN\<rparr>"
    by (simp add: elbow_up_absolute_def Let_def c)
  then show ?thesis
    by (simp only: xy_to_q_hole [OF hole])
qed

lemma xy_to_q_home: "xy_to_q (Fin 500) (Fin (- 450)) = \<lparr>q_q1 = Fin 0, q_q2 = Fin (- 90)\<rparr>"
proof -
  have c: "elbow_cos 500 (- 450) = 0"
    by (simp add: elbow_cos_def)
  have b: "elbow_beta 500 (- 450) = arctan (9 / 10)"
    by (simp add: elbow_beta_def c atan2_def)
  have a: "atan2 (- 450) 500 = - arctan (9 / 10)"
    by (simp add: atan2_def arctan_minus)
  have "xy_to_q (Fin 500) (Fin (- 450)) =
           \<lparr>q_q1 = Fin ((atan2 (- 450) 500 + elbow_beta 500 (- 450)) * (180 / pi)),
            q_q2 = Fin ((atan2 (- 450) 500 + elbow_beta 500 (- 450)
                         + - arccos (elbow_cos 500 (- 450))) * (180 / pi))\<rparr>"
    by (rule xy_to_q_annulus) simp_all
  then show ?thesis
    unfolding a b c by simp
qed

theorem inverse_formula_witness:
  "(500::real)\<^sup>2 + (- 450)\<^sup>2 \<le> (500 + 450)\<^sup>2
   \<and> elbow_up_absolute 500 450 500 (- 450) = \<lparr>q_q1 = Fin 0, q_q2 = Fin (- 90)\<rparr>"
proof -
  have h: "(500::real)\<^sup>2 + (- 450)\<^sup>2 \<le> (500 + 450)\<^sup>2"
    by simp
  from inverse_formula [OF h] have "elbow_up_absolute 500 450 500 (- 450) = xy_to_q (Fin 500) (Fin (- 450))"
    by (rule sym)
  then have "elbow_up_absolute 500 450 500 (- 450) = \<lparr>q_q1 = Fin 0, q_q2 = Fin (- 90)\<rparr>"
    by (simp only: xy_to_q_home)
  with h show ?thesis
    by (rule conjI)
qed

subsection \<open>Round trip from joint angles\<close>

lemma q_to_xy_elbow_down: "q_to_xy (Fin 0) (Fin 90) = \<lparr>xy_x = Fin 500, xy_y = Fin 450\<rparr>"
  by (simp add: q_to_xy_Fin)

lemma xy_to_q_elbow_down:
  "xy_to_q (Fin 500) (Fin 450) =
     \<lparr>q_q1 = Fin (2 * arctan (9 / 10) * (180 / pi)),
      q_q2 = Fin ((2 * arctan (9 / 10) - pi / 2) * (180 / pi))\<rparr>"
proof -
  have c: "elbow_cos 500 450 = 0"
    by (simp add: elbow_cos_def)
  have b: "elbow_beta 500 450 = arctan (9 / 10)"
    by (simp add: elbow_beta_def c atan2_def)
  have a: "atan2 450 500 = arctan (9 / 10)"
    by (simp add: atan2_def)
  have "xy_to_q (Fin 500) (Fin 450) =
           \<lparr>q_q1 = Fin ((atan2 450 500 + elbow_beta 500 450) * (180 / pi)),
            q_q2 = Fin ((atan2 450 500 + elbow_beta 500 450
                         + - arccos (elbow_cos 500 450)) * (180 / pi))\<rparr>"
    by (rule xy_to_q_annulus) simp_all
  then show ?thesis
    unfolding a b c by simp
qed

lemma mirrored_q2_negative: "(2 * arctan (9 / 10) - pi / 2) * (180 / pi) < 0"
proof -
  have "arctan (9 / 10) < arctan 1"
    by (simp only: arctan_less_iff)
  then have "2 * arctan (9 / 10) - pi / 2 < 0"
    by (simp add: arctan_one)
  moreover have "0 < 180 / pi"
    using pi_gt_zero by simp
  ultimately show ?thesis
    by (rule mult_neg_pos)
qed

lemma q_to_xy_full_turn: "q_to_xy (Fin 360) (Fin 270) = \<lparr>xy_x = Fin 500, xy_y = Fin (- 450)\<rparr>"
proof -
  have a: "(360::real) * (pi / 180) = 2 * pi" and b: "(270::real) * (pi / 180) = 3 / 2 * pi"
    by simp_all
  show ?thesis
    unfolding q_to_xy_Fin a b cos_3over2_pi sin_3over2_pi by simp
qed

text \<open>
  C3, as stated, fails for an elbow-down pose and for a pose outside the principal range.
  The joint angles \<open>(0\<degree>, 90\<degree>)\<close> have the forward image \<open>(500, 450)\<close>, inside the disc, and
  the inverse transform of that point is the mirrored elbow-up pose, whose \<open>q2\<close> is
  negative. The joint angles \<open>(360\<degree>, 270\<degree>)\<close> have the forward image \<open>(500, -450)\<close>, whose
  inverse transform is \<open>(0\<degree>, -90\<degree>)\<close>.
\<close>

theorem round_trip_counterexample:
  "q_to_xy (Fin 0) (Fin 90) = \<lparr>xy_x = Fin 500, xy_y = Fin 450\<rparr>
   \<and> (500::real)\<^sup>2 + 450\<^sup>2 \<le> (500 + 450)\<^sup>2
   \<and> q_q2 (xy_to_q (Fin 500) (Fin 450)) = Fin ((2 * arctan (9 / 10) - pi / 2) * (180 / pi))
   \<and> \<not> \<bar>(2 * arctan (9 / 10) - pi / 2) * (180 / pi) - 90\<bar> \<le> 1 / 1000
   \<and> q_to_xy (Fin 360) (Fin 270) = \<lparr>xy_x = Fin 500, xy_y = Fin (- 450)\<rparr>
   \<and> xy_to_q (Fin 500) (Fin (- 450)) = \<lparr>q_q1 = Fin 0, q_q2 = Fin (- 90)\<rparr>"
proof -
  define v where "v = (2 * arctan (9 / 10) - pi / 2) * (180 / pi)"
  have "v < 0"
    unfolding v_def by (rule mirrored_q2_negative)
  then have "\<not> \<bar>v - 90\<bar> \<le> 1 / 1000"
    by linarith
  moreover have "q_q2 (xy_to_q (Fin 500) (Fin 450)) = Fin v"
    unfolding v_def by (simp add: xy_to_q_elbow_down)
  moreover have "(500::real)\<^sup>2 + 450\<^sup>2 \<le> (500 + 450)\<^sup>2"
    by simp
  ultimately show ?thesis
    unfolding v_def using q_to_xy_elbow_down q_to_xy_full_turn xy_to_q_home by blast
qed

text \<open>
  C3, amended. For an elbow-up pose at least 10\<degree> away from the stretched and the folded
  pose, \<open>10\<degree> \<le> q1 - q2 \<le> 170\<degree>\<close>, whose target direction \<open>q1 - \<beta>\<close> lies within
  \<open>[-179\<degree>, 179\<degree>]\<close>, the inverse transform of the forward image is a pair of numbers within
  \<open>0.001\<degree>\<close> of \<open>(q1, q2)\<close>. (In this embedding it is \<open>(q1, q2)\<close> itself.)
\<close>

theorem round_trip_elbow_up:
  fixes q1 q2 :: real
  assumes "10 \<le> q1 - q2" and "q1 - q2 \<le> 170"
    and "- 179 \<le> q1 - elbow_offset (q1 - q2)" and "q1 - elbow_offset (q1 - q2) \<le> 179"
  shows "\<exists>r1 r2.
           xy_to_q (xy_x (q_to_xy (Fin q1) (Fin q2))) (xy_y (q_to_xy (Fin q1) (Fin q2)))
             = \<lparr>q_q1 = Fin r1, q_q2 = Fin r2\<rparr>
           \<and> \<bar>r1 - q1\<bar> \<le> 1 / 1000 \<and> \<bar>r2 - q2\<bar> \<le> 1 / 1000"
proof -
  have "xy_to_q (xy_x (q_to_xy (Fin q1) (Fin q2))) (xy_y (q_to_xy (Fin q1) (Fin q2)))
           = \<lparr>q_q1 = Fin q1, q_q2 = Fin q2\<rparr>"
    using assms by (intro inverse_forward_degrees) linarith+
  then show ?thesis
    by (intro exI [of _ q1] exI [of _ q2]) simp
qed

lemma elbow_offset_90: "elbow_offset 90 = arctan (9 / 10) * (180 / pi)"
  by (simp add: elbow_offset_def atan2_def)

lemma elbow_offset_90_bounds: "0 \<le> elbow_offset 90" "elbow_offset 90 \<le> 90"
proof -
  have k: "0 \<le> 180 / pi"
    using pi_gt_zero by simp
  have "0 \<le> arctan (9 / 10)"
    by (simp only: zero_le_arctan_iff)
  then have "0 * (180 / pi) \<le> arctan (9 / 10) * (180 / pi)"
    using k by (intro mult_right_mono)
  then show "0 \<le> elbow_offset 90"
    unfolding elbow_offset_90 by simp
  have "arctan (9 / 10) \<le> pi / 2"
    using arctan_ubound [of "9 / 10"] by linarith
  then have "arctan (9 / 10) * (180 / pi) \<le> pi / 2 * (180 / pi)"
    using k by (intro mult_right_mono)
  then show "elbow_offset 90 \<le> 90"
    unfolding elbow_offset_90 by simp
qed

theorem round_trip_elbow_up_witness:
  "(10::real) \<le> 0 - (- 90) \<and> (0::real) - (- 90) \<le> 170
   \<and> - 179 \<le> 0 - elbow_offset (0 - (- 90)) \<and> 0 - elbow_offset (0 - (- 90)) \<le> 179
   \<and> (\<exists>r1 r2.
         xy_to_q (xy_x (q_to_xy (Fin 0) (Fin (- 90)))) (xy_y (q_to_xy (Fin 0) (Fin (- 90))))
           = \<lparr>q_q1 = Fin r1, q_q2 = Fin r2\<rparr>
         \<and> \<bar>r1 - 0\<bar> \<le> 1 / 1000 \<and> \<bar>r2 - (- 90)\<bar> \<le> 1 / 1000)"
proof -
  have h: "(10::real) \<le> 0 - (- 90)" "(0::real) - (- 90) \<le> 170"
    by simp_all
  have o: "- 179 \<le> 0 - elbow_offset (0 - (- 90))" "0 - elbow_offset (0 - (- 90)) \<le> 179"
    using elbow_offset_90_bounds by simp_all
  from h o round_trip_elbow_up [OF h o] show ?thesis
    by blast
qed

subsection \<open>The waypoints of a session\<close>

lemma segment_next_fields [simp]:
  "do_segments (segment_next n s) = do_segments s"
  "delta (segment_next n s) = delta s"
  "current_position (segment_next n s) = current_position s"
  "final_target (segment_next n s) = final_target s"
  "raised_alarms (segment_next n s) = raised_alarms s"
  by (simp_all add: segment_next_def Let_def)

lemma segment_target_segment_next:
  "segment_target (segment_next n s) =
     (if do_segments s \<and> iterations s - 1 > 1 then add_delta n (delta s) (segment_target s)
      else final_target s)"
  by (simp add: segment_next_def Let_def)

lemma length_from_cartesian [simp]:
  "length (fst (snd (scara_transform_from_cartesian n target_q position_xy raised))) = length target_q"
  by (cases "unreachable (xy_to_q (position_xy ! 0) (position_xy ! 1))")
     (simp_all add: from_cartesian_unreachable from_cartesian_reachable Let_def)

lemma next_call_fields [simp]:
  "do_segments (snd (next_call n s)) = do_segments s"
  "delta (snd (next_call n s)) = delta s"
  "final_target (snd (next_call n s)) = final_target s"
  "segment_target (snd (next_call n s)) = segment_target (segment_next n s)"
  "length (current_position (snd (next_call n s))) = length (current_position s)"
  by (simp_all add: next_call_def snd_scara_segment_line Let_def)

lemma scale_delta_3:
  "scale_delta 3 its dlt =
     dlt[2 := dlt ! 2 / uint_fast16_to_float its, 1 := dlt ! 1 / uint_fast16_to_float its,
         0 := dlt ! 0 / uint_fast16_to_float its]"
  by (simp add: scale_delta.simps [of 3] scale_delta.simps [of 2] scale_delta.simps [of "Suc 0"]
      Let_def)

lemma add_delta_3:
  "add_delta 3 dlt tgt =
     tgt[2 := tgt ! 2 + dlt ! 2, 1 := tgt ! 1 + dlt ! 1, 0 := tgt ! 0 + dlt ! 0]"
  by (simp add: add_delta.simps [of 3] add_delta.simps [of 2] add_delta.simps [of "Suc 0"] Let_def)

lemma start_cartesian_nth:
  assumes "3 \<le> n" "length (current_position s) = n"
  shows "start_cartesian n position s ! 0 = xy_x (q_to_xy (position ! 0) (position ! 1))"
    and "start_cartesian n position s ! 1 = xy_y (q_to_xy (position ! 0) (position ! 1))"
    and "length (start_cartesian n position s) = n"
  using assms
  by (simp_all add: start_cartesian_def scara_transform_to_cartesian_def Let_def
      A_MOTOR_def B_MOTOR_def X_AXIS_def Y_AXIS_def)

lemma from_cartesian_waypoint:
  assumes "3 \<le> n" "length cur = n" "length p = n"
    and "\<not> unreachable (xy_to_q (p ! 0) (p ! 1))"
  shows "fst (snd (scara_transform_from_cartesian n cur p raised)) = joint_waypoint p"
proof -
  let ?q = "xy_to_q (p ! 0) (p ! 1)"
  have "fst (snd (scara_transform_from_cartesian n cur p raised))
      = (copy_higher_axes (n - 1) cur p)[0 := q_q1 ?q, 1 := q_q2 ?q]"
    using assms(4) by (simp add: from_cartesian_reachable Let_def)
  also have "\<dots> = p[0 := q_q1 ?q, 1 := q_q2 ?q]"
  proof (rule nth_equalityI)
    show "length ((copy_higher_axes (n - 1) cur p)[0 := q_q1 ?q, 1 := q_q2 ?q])
        = length (p[0 := q_q1 ?q, 1 := q_q2 ?q])"
      using assms(2,3) by simp
    fix i assume "i < length ((copy_higher_axes (n - 1) cur p)[0 := q_q1 ?q, 1 := q_q2 ?q])"
    then have i: "i < n"
      using assms(2) by simp
    consider "i = 0" | "i = 1" | "2 \<le> i"
      by linarith
    then show "(copy_higher_axes (n - 1) cur p)[0 := q_q1 ?q, 1 := q_q2 ?q] ! i
        = p[0 := q_q1 ?q, 1 := q_q2 ?q] ! i"
    proof cases
      case 1
      then show ?thesis using assms(1,2,3) by simp
    next
      case 2
      then show ?thesis using assms(1,2,3) by simp
    next
      case 3
      then show ?thesis
        using i assms(1,2,3) by (auto simp: nth_copy_higher_axes)
    qed
  qed
  finally show ?thesis
    by (simp add: joint_waypoint_def)
qed

lemma length_add_delta [simp]: "length (add_delta idx dlt tgt) = length tgt"
proof (induction idx dlt tgt rule: add_delta.induct)
  case (1 idx dlt tgt)
  show ?case
    using 1 by (subst add_delta.simps) (simp add: Let_def)
qed

lemma after_next_calls_Suc:
  "after_next_calls n (Suc k) s = snd (next_call n (after_next_calls n k s))"
  by (induction k arbitrary: s) simp_all

lemma arrays_sized_next_call: "arrays_sized n s \<Longrightarrow> arrays_sized n (snd (next_call n s))"
  by (simp add: arrays_sized_def segment_target_segment_next)

lemma arrays_sized_after_next_calls:
  "arrays_sized n s \<Longrightarrow> arrays_sized n (after_next_calls n k s)"
  by (induction k arbitrary: s) (simp_all add: arrays_sized_next_call)

lemma arrays_sized_init:
  assumes "3 \<le> n" "length (current_position s) = n" "length target = n"
  shows "arrays_sized n (snd (scara_segment_line n target position plan_data True s))"
  using assms start_cartesian_nth(3) [OF assms(1,2), of position]
  by (simp add: arrays_sized_def snd_scara_segment_line Let_def current_position_segment_init
      segment_target_segment_init)

lemma next_call_waypoint:
  assumes "3 \<le> n" "arrays_sized n s" "iterations s - 1 \<noteq> 0" "\<not> jog_cancel s"
    and "\<not> unreachable (xy_to_q (segment_target (snd (next_call n s)) ! 0)
                                   (segment_target (snd (next_call n s)) ! 1))"
  shows "fst (next_call n s) = Some (joint_waypoint (segment_target (snd (next_call n s))))"
proof -
  define p where "p = segment_target (segment_next n s)"
  have p: "segment_target (snd (next_call n s)) = p"
    by (simp add: p_def)
  have lp: "length p = n"
    using assms(2) by (simp add: p_def arrays_sized_def segment_target_segment_next)
  have lc: "length (current_position s) = n"
    using assms(2) by (simp add: arrays_sized_def)
  have "fst (next_call n s)
      = Some (fst (snd (scara_transform_from_cartesian n (current_position s) p (raised_alarms s))))"
    using assms(3,4) by (simp add: next_call_def fst_scara_segment_line Let_def p_def)
  also have "\<dots> = Some (joint_waypoint p)"
    using assms(5) unfolding p by (simp add: from_cartesian_waypoint [OF assms(1) lc lp])
  finally show ?thesis
    unfolding p .
qed

lemma final_target_after_next_calls [simp]:
  "final_target (after_next_calls n k s) = final_target s"
  by (induction k arbitrary: s) simp_all

lemma session_waypoints:
  fixes m :: nat
  assumes "3 \<le> n" "arrays_sized n s" "iterations s = of_nat m" "m < 2 ^ 32" "\<not> jog_cancel s"
    and "Suc k < m"
    and "\<not> unreachable (xy_to_q (segment_target (after_next_calls n (Suc k) s) ! 0)
                                   (segment_target (after_next_calls n (Suc k) s) ! 1))"
  shows "fst (next_call n (after_next_calls n k s))
           = Some (joint_waypoint (segment_target (after_next_calls n (Suc k) s)))"
proof -
  have "(of_nat m :: 32 word) - of_nat (Suc k) \<noteq> 0"
    using assms(4,6) by (intro countdown_word) simp_all
  then have "iterations (after_next_calls n k s) - 1 \<noteq> 0"
    by (simp add: iterations_after_next_calls assms(3) algebra_simps)
  then show ?thesis
    using assms(5,7) unfolding after_next_calls_Suc
    by (intro next_call_waypoint [OF assms(1) arrays_sized_after_next_calls [OF assms(2)]]) simp_all
qed

lemma last_segment_target:
  fixes m :: nat
  assumes "iterations s = of_nat m" "2 \<le> m"
  shows "segment_target (after_next_calls n (m - 1) s) = final_target s"
proof -
  obtain j where m: "m = Suc (Suc j)"
    using assms(2) by (metis Suc_le_D numeral_2_eq_2 Suc_le_mono)
  have "iterations (after_next_calls n j s) - 1 = 1"
    by (simp add: iterations_after_next_calls assms(1) m)
  then have "segment_target (snd (next_call n (after_next_calls n j s)))
      = final_target (after_next_calls n j s)"
    by (simp add: segment_target_segment_next)
  moreover have "after_next_calls n (m - 1) s = snd (next_call n (after_next_calls n j s))"
    by (simp only: m diff_Suc_1 after_next_calls_Suc)
  ultimately show ?thesis
    by (simp del: after_next_calls.simps)
qed

text \<open>
  C4, amended. A move that is not rapid and whose planar distance is computed as 150 mm
  gives \<open>ceil(150/2) = 75\<close> segments and a stored count of 76. Each of the following 75
  calls with \<^verbatim>\<open>init = false\<close> whose segment target is not out of reach returns the inverse
  transform of that segment target; the segment target of the 75th is the final target,
  and the 76th call returns \<^verbatim>\<open>NULL\<close>. A move of planar distance 1.5 mm, and every rapid
  move, stores the count 2: the next call has the final target as its segment target and
  returns its inverse transform unless that is out of reach, and the call after it returns
  \<^verbatim>\<open>NULL\<close>.
\<close>

theorem segment_count:
  fixes position :: "cfloat list" and plan_data :: plan_line_data_t
  assumes "3 \<le> n" and "length (current_position s) = n" and "length target = n"
  defines "s1 \<equiv> snd (scara_segment_line n target position plan_data True s)"
  shows
    "(move_distance n target position s = Fin 150 \<and> \<not> rapid_motion plan_data \<longrightarrow>
        float_to_uint_fast16 (ceilf (Fin 150 / MAX_SEG_LENGTH_MM)) = 75
      \<and> iterations s1 = 76
      \<and> (\<forall>k<75.
            \<not> unreachable (xy_to_q (segment_target (after_next_calls n (Suc k) s1) ! 0)
                                    (segment_target (after_next_calls n (Suc k) s1) ! 1))
            \<longrightarrow> fst (next_call n (after_next_calls n k s1))
                  = Some (joint_waypoint (segment_target (after_next_calls n (Suc k) s1))))
      \<and> segment_target (after_next_calls n 75 s1) = target
      \<and> fst (next_call n (after_next_calls n 75 s1)) = None)
     \<and> (move_distance n target position s = Fin (3 / 2) \<or> rapid_motion plan_data \<longrightarrow>
        iterations s1 = 2
      \<and> segment_target (after_next_calls n 1 s1) = target
      \<and> (\<not> unreachable (xy_to_q (target ! 0) (target ! 1))
            \<longrightarrow> fst (next_call n (after_next_calls n 0 s1)) = Some (joint_waypoint target))
      \<and> fst (next_call n (after_next_calls n 1 s1)) = None)"
proof (intro conjI impI)
  have its: "iterations s1 = iterations (segment_init n target position plan_data s)"
    and jc: "\<not> jog_cancel s1"
    and ft: "final_target s1 = target"
    by (simp_all add: s1_def snd_scara_segment_line Let_def)
  have sized: "arrays_sized n s1"
    unfolding s1_def by (rule arrays_sized_init [OF assms(1,2,3)])
  show "float_to_uint_fast16 (ceilf (Fin 150 / MAX_SEG_LENGTH_MM)) = 75"
    by (simp add: MAX_SEG_LENGTH_MM_def)
  {
    assume h: "move_distance n target position s = Fin 150 \<and> \<not> rapid_motion plan_data"
    then show i76: "iterations s1 = 76"
      by (simp add: its iterations_segment_init MAX_SEG_LENGTH_MM_def)
    then have m: "iterations s1 = of_nat 76" by simp
    show "\<forall>k<75.
            \<not> unreachable (xy_to_q (segment_target (after_next_calls n (Suc k) s1) ! 0)
                                    (segment_target (after_next_calls n (Suc k) s1) ! 1))
            \<longrightarrow> fst (next_call n (after_next_calls n k s1))
                  = Some (joint_waypoint (segment_target (after_next_calls n (Suc k) s1)))"
    proof (intro allI impI)
      fix k :: nat
      assume "k < 75"
        and "\<not> unreachable (xy_to_q (segment_target (after_next_calls n (Suc k) s1) ! 0)
                                    (segment_target (after_next_calls n (Suc k) s1) ! 1))"
      then show "fst (next_call n (after_next_calls n k s1))
                  = Some (joint_waypoint (segment_target (after_next_calls n (Suc k) s1)))"
        by (intro session_waypoints [OF assms(1) sized m _ jc]) simp_all
    qed
    from last_segment_target [OF m, of n]
    show "segment_target (after_next_calls n 75 s1) = target"
      by (simp add: ft)
    from session_length(2) [OF m _ jc, of n]
    show "fst (next_call n (after_next_calls n 75 s1)) = None" by simp
  }
  {
    assume h: "move_distance n target position s = Fin (3 / 2) \<or> rapid_motion plan_data"
    then show "iterations s1 = 2"
      by (auto simp add: its iterations_segment_init MAX_SEG_LENGTH_MM_def)
    then have m: "iterations s1 = of_nat 2" by simp
    from last_segment_target [OF m, of n]
    show t1: "segment_target (after_next_calls n 1 s1) = target"
      by (simp add: ft)
    from session_length(2) [OF m _ jc, of n]
    show "fst (next_call n (after_next_calls n 1 s1)) = None" by simp
    assume r: "\<not> unreachable (xy_to_q (target ! 0) (target ! 1))"
    have "fst (next_call n (after_next_calls n 0 s1))
        = Some (joint_waypoint (segment_target (after_next_calls n (Suc 0) s1)))"
      using r t1 by (intro session_waypoints [OF assms(1) sized m _ jc]) simp_all
    then show "fst (next_call n (after_next_calls n 0 s1)) = Some (joint_waypoint target)"
      using t1 by simp
  }
qed

lemma q_to_xy_stretched: "q_to_xy (Fin 0) (Fin 0) = \<lparr>xy_x = Fin 950, xy_y = Fin 0\<rparr>"
  by (simp add: q_to_xy_Fin)

lemma xy_to_q_stretched: "xy_to_q (Fin 950) (Fin 0) = \<lparr>q_q1 = Fin 0, q_q2 = Fin 0\<rparr>"
proof -
  have c: "elbow_cos 950 0 = 1"
    by (simp add: elbow_cos_def)
  have b: "elbow_beta 950 0 = 0"
    by (simp add: elbow_beta_def c atan2_def)
  have a: "atan2 0 950 = 0"
    by (simp add: atan2_def)
  have "xy_to_q (Fin 950) (Fin 0) =
           \<lparr>q_q1 = Fin ((atan2 0 950 + elbow_beta 950 0) * (180 / pi)),
            q_q2 = Fin ((atan2 0 950 + elbow_beta 950 0 + - arccos (elbow_cos 950 0)) * (180 / pi))\<rparr>"
    by (rule xy_to_q_annulus) simp_all
  then show ?thesis
    unfolding a b c by simp
qed

lemma start_cartesian_stretched:
  "start_cartesian 3 stretched_angles initial_state = [Fin 950, Fin 0, Fin 0]"
  by (simp add: start_cartesian_def to_cartesian_3 stretched_angles_def q_to_xy_stretched)

lemma move_distance_stretched:
  "move_distance 3 [Fin t, Fin 0, Fin 0] stretched_angles initial_state = Fin \<bar>t - 950\<bar>"
  by (simp add: move_distance_def start_cartesian_stretched calc_delta_3 planar_distance_def
      flip: power2_eq_square)

lemma uint_fast16_to_float_75 [simp]: "uint_fast16_to_float 75 = Fin 75"
  by (simp add: uint_fast16_to_float_def)

lemma long_session_eq:
  "long_session =
     \<lparr>jog_cancel = False, do_segments = True, iterations = 76,
      delta = [Fin (- 2), Fin 0, Fin 0], segment_target = [Fin 950, Fin 0, Fin 0],
      current_position = [Fin 0, Fin 0, Fin 0], final_target = [Fin 800, Fin 0, Fin 0],
      raised_alarms = []\<rparr>"
proof -
  have "segment_init 3 [Fin 800, Fin 0, Fin 0] stretched_angles \<lparr>rapid_motion = False\<rparr>
          initial_state =
     \<lparr>jog_cancel = False, do_segments = True, iterations = 76,
      delta = [Fin (- 2), Fin 0, Fin 0], segment_target = [Fin 950, Fin 0, Fin 0],
      current_position = [Fin 950, Fin 0, Fin 0], final_target = [Fin 800, Fin 0, Fin 0],
      raised_alarms = []\<rparr>"
    using start_cartesian_stretched
    by (simp add: segment_init_def Let_def start_cartesian_def calc_delta_3 scale_delta_3
        initial_state_def planar_distance_def sqrt_22500 MAX_SEG_LENGTH_MM_def)
  then show ?thesis
    by (simp add: long_session_def snd_scara_segment_line Let_def from_cartesian_reachable
        unreachable_def xy_to_q_stretched copy_higher_axes_2)
qed

lemma beyond_session_eq:
  "beyond_session =
     \<lparr>jog_cancel = False, do_segments = True, iterations = 76,
      delta = [Fin 2, Fin 0, Fin 0], segment_target = [Fin 950, Fin 0, Fin 0],
      current_position = [Fin 0, Fin 0, Fin 0], final_target = [Fin 1100, Fin 0, Fin 0],
      raised_alarms = []\<rparr>"
proof -
  have "segment_init 3 [Fin 1100, Fin 0, Fin 0] stretched_angles \<lparr>rapid_motion = False\<rparr>
          initial_state =
     \<lparr>jog_cancel = False, do_segments = True, iterations = 76,
      delta = [Fin 2, Fin 0, Fin 0], segment_target = [Fin 950, Fin 0, Fin 0],
      current_position = [Fin 950, Fin 0, Fin 0], final_target = [Fin 1100, Fin 0, Fin 0],
      raised_alarms = []\<rparr>"
    using start_cartesian_stretched
    by (simp add: segment_init_def Let_def start_cartesian_def calc_delta_3 scale_delta_3
        initial_state_def planar_distance_def sqrt_22500 MAX_SEG_LENGTH_MM_def)
  then show ?thesis
    by (simp add: beyond_session_def snd_scara_segment_line Let_def from_cartesian_reachable
        unreachable_def xy_to_q_stretched copy_higher_axes_2)
qed

theorem segment_count_witness:
  "move_distance 3 [Fin 800, Fin 0, Fin 0] stretched_angles initial_state = Fin 150
   \<and> iterations long_session = 76
   \<and> segment_target (after_next_calls 3 (Suc 0) long_session) = [Fin 948, Fin 0, Fin 0]
   \<and> unreachable (xy_to_q (Fin 948) (Fin 0)) = False
   \<and> fst (next_call 3 (after_next_calls 3 0 long_session))
       = Some (joint_waypoint [Fin 948, Fin 0, Fin 0])
   \<and> segment_target (after_next_calls 3 75 long_session) = [Fin 800, Fin 0, Fin 0]
   \<and> fst (next_call 3 (after_next_calls 3 75 long_session)) = None
   \<and> move_distance 3 [Fin (1897 / 2), Fin 0, Fin 0] stretched_angles initial_state = Fin (3 / 2)
   \<and> iterations (snd (scara_segment_line 3 [Fin (1897 / 2), Fin 0, Fin 0] stretched_angles
         \<lparr>rapid_motion = False\<rparr> True initial_state)) = 2
   \<and> fst (next_call 3 (after_next_calls 3 1
         (snd (scara_segment_line 3 [Fin (1897 / 2), Fin 0, Fin 0] stretched_angles
            \<lparr>rapid_motion = False\<rparr> True initial_state)))) = None
   \<and> rapid_motion \<lparr>rapid_motion = True\<rparr>
   \<and> unreachable (xy_to_q (Fin 800) (Fin 0)) = False
   \<and> fst (next_call 3 (after_next_calls 3 0
         (snd (scara_segment_line 3 [Fin 800, Fin 0, Fin 0] stretched_angles
            \<lparr>rapid_motion = True\<rparr> True initial_state))))
       = Some (joint_waypoint [Fin 800, Fin 0, Fin 0])"
proof -
  have n: "(3::nat) \<le> 3" and lc: "length (current_position initial_state) = 3"
    and lt: "length [Fin 800, Fin 0, Fin 0] = 3" "length [Fin (1897 / 2), Fin 0, Fin 0] = 3"
    by simp_all
  have slow: "\<not> rapid_motion \<lparr>rapid_motion = False\<rparr>" and fast: "rapid_motion \<lparr>rapid_motion = True\<rparr>"
    by simp_all
  have d150: "move_distance 3 [Fin 800, Fin 0, Fin 0] stretched_angles initial_state = Fin 150"
    and d15: "move_distance 3 [Fin (1897 / 2), Fin 0, Fin 0] stretched_angles initial_state
      = Fin (3 / 2)"
    by (simp_all add: move_distance_stretched)
  have p1: "segment_target (after_next_calls 3 (Suc 0) long_session) = [Fin 948, Fin 0, Fin 0]"
    by (simp add: segment_target_segment_next long_session_eq add_delta_3)
  have r948: "unreachable (xy_to_q (Fin 948) (Fin 0)) = False"
    and r800: "unreachable (xy_to_q (Fin 800) (Fin 0)) = False"
    by (simp_all add: unreachable_iff)
  note a = segment_count [OF n lc lt(1), of stretched_angles "\<lparr>rapid_motion = False\<rparr>",
      folded long_session_def, THEN conjunct1, rule_format, OF conjI [OF d150 slow]]
  note b = segment_count [OF n lc lt(2), of stretched_angles "\<lparr>rapid_motion = False\<rparr>",
      THEN conjunct2, rule_format, OF disjI1 [OF d15]]
  note c = segment_count [OF n lc lt(1), of stretched_angles "\<lparr>rapid_motion = True\<rparr>",
      THEN conjunct2, rule_format, OF disjI2 [OF fast]]
  from a have a0: "fst (next_call 3 (after_next_calls 3 0 long_session))
       = Some (joint_waypoint [Fin 948, Fin 0, Fin 0])"
    using r948 by (simp add: p1 del: after_next_calls.simps)
  from c have c0: "fst (next_call 3 (after_next_calls 3 0
         (snd (scara_segment_line 3 [Fin 800, Fin 0, Fin 0] stretched_angles
            \<lparr>rapid_motion = True\<rparr> True initial_state))))
       = Some (joint_waypoint [Fin 800, Fin 0, Fin 0])"
    using r800 by simp
  from a have a76: "iterations long_session = 76"
    and a75: "segment_target (after_next_calls 3 75 long_session) = [Fin 800, Fin 0, Fin 0]"
    and aN: "fst (next_call 3 (after_next_calls 3 75 long_session)) = None"
    by blast+
  from b have b2: "iterations (snd (scara_segment_line 3 [Fin (1897 / 2), Fin 0, Fin 0]
         stretched_angles \<lparr>rapid_motion = False\<rparr> True initial_state)) = 2"
    and bN: "fst (next_call 3 (after_next_calls 3 1
         (snd (scara_segment_line 3 [Fin (1897 / 2), Fin 0, Fin 0] stretched_angles
            \<lparr>rapid_motion = False\<rparr> True initial_state)))) = None"
    by blast+
  from d150 a76 p1 r948 a0 a75 aN d15 b2 bN fast r800 c0 show ?thesis
    by blast
qed

text \<open>
  C4, as stated, fails for the move from the stretched pose to \<open>(1100, 0)\<close>: it is not
  rapid and 150 mm long, and 76 is stored. The first of the following calls has the
  segment target \<open>(952, 0)\<close>, which is out of reach; what it returns is not a waypoint for
  that target but the vector \<open>(0, 0, 0)\<close> of the call before, whose forward transform is
  \<open>(950, 0)\<close>.
\<close>

theorem segment_count_counterexample:
  "move_distance 3 [Fin 1100, Fin 0, Fin 0] stretched_angles initial_state = Fin 150
   \<and> rapid_motion \<lparr>rapid_motion = False\<rparr> = False
   \<and> iterations beyond_session = 76
   \<and> segment_target (snd (next_call 3 beyond_session)) = [Fin 952, Fin 0, Fin 0]
   \<and> xy_to_q (Fin 952) (Fin 0) = \<lparr>q_q1 = NaN, q_q2 = NaN\<rparr>
   \<and> fst (next_call 3 beyond_session) = Some [Fin 0, Fin 0, Fin 0]
   \<and> raised_alarms (snd (next_call 3 beyond_session)) = [Alarm_SoftLimit]
   \<and> scara_transform_to_cartesian 3 [Fin 0, Fin 0, Fin 0] [Fin 0, Fin 0, Fin 0]
       = [Fin 950, Fin 0, Fin 0]"
  by (simp add: move_distance_stretched beyond_session_eq next_call_def scara_segment_line_def
      segment_next_def Let_def add_delta_3 from_cartesian_unreachable unreachable_def
      xy_to_q_outside copy_higher_axes_2 to_cartesian_3 q_to_xy_stretched)

subsection \<open>Arrival at the final target\<close>

lemma sqrt_16: "sqrt 16 = 4"
  by (rule real_sqrt_unique) simp_all

lemma q_to_xy_folded: "q_to_xy (Fin 0) (Fin 180) = \<lparr>xy_x = Fin 50, xy_y = Fin 0\<rparr>"
  by (simp add: q_to_xy_Fin)

lemma q_to_xy_folded': "q_to_xy (Fin 0) (Fin (- 180)) = \<lparr>xy_x = Fin 50, xy_y = Fin 0\<rparr>"
  by (simp add: q_to_xy_Fin)

lemma xy_to_q_folded: "xy_to_q (Fin 50) (Fin 0) = \<lparr>q_q1 = Fin 0, q_q2 = Fin (- 180)\<rparr>"
proof -
  have c: "elbow_cos 50 0 = - 1"
    by (simp add: elbow_cos_def)
  have b: "elbow_beta 50 0 = 0"
    by (simp add: elbow_beta_def c atan2_def)
  have a: "atan2 0 50 = 0"
    by (simp add: atan2_def)
  have "xy_to_q (Fin 50) (Fin 0) =
           \<lparr>q_q1 = Fin ((atan2 0 50 + elbow_beta 50 0) * (180 / pi)),
            q_q2 = Fin ((atan2 0 50 + elbow_beta 50 0 + - arccos (elbow_cos 50 0)) * (180 / pi))\<rparr>"
    by (rule xy_to_q_annulus) simp_all
  then show ?thesis
    unfolding a b c by simp
qed

lemma start_cartesian_folded:
  "start_cartesian 3 folded_angles initial_state = [Fin 50, Fin 0, Fin 0]"
  by (simp add: start_cartesian_def to_cartesian_3 folded_angles_def q_to_xy_folded)

lemma uint_fast16_to_float_2 [simp]: "uint_fast16_to_float 2 = Fin 2"
  by (simp add: uint_fast16_to_float_def)

lemma init_hole_state:
  "segment_init 3 [Fin 46, Fin 0, Fin 0] folded_angles \<lparr>rapid_motion = False\<rparr> initial_state =
     \<lparr>jog_cancel = False, do_segments = True, iterations = 3,
      delta = [Fin (- 2), Fin 0, Fin 0], segment_target = [Fin 50, Fin 0, Fin 0],
      current_position = [Fin 50, Fin 0, Fin 0], final_target = [Fin 46, Fin 0, Fin 0],
      raised_alarms = []\<rparr>"
  using start_cartesian_folded
  by (simp add: segment_init_def Let_def start_cartesian_def calc_delta_3 scale_delta_3
      initial_state_def planar_distance_def sqrt_16 MAX_SEG_LENGTH_MM_def)

lemma hole_session_eq:
  "hole_session =
     \<lparr>jog_cancel = False, do_segments = True, iterations = 2,
      delta = [Fin (- 2), Fin 0, Fin 0], segment_target = [Fin 48, Fin 0, Fin 0],
      current_position = [Fin 0, Fin (- 180), Fin 0], final_target = [Fin 46, Fin 0, Fin 0],
      raised_alarms = [Alarm_SoftLimit]\<rparr>"
proof -
  have "snd (scara_segment_line 3 [Fin 46, Fin 0, Fin 0] folded_angles
              \<lparr>rapid_motion = False\<rparr> True initial_state) =
     \<lparr>jog_cancel = False, do_segments = True, iterations = 3,
      delta = [Fin (- 2), Fin 0, Fin 0], segment_target = [Fin 50, Fin 0, Fin 0],
      current_position = [Fin 0, Fin (- 180), Fin 0], final_target = [Fin 46, Fin 0, Fin 0],
      raised_alarms = []\<rparr>"
    by (simp add: snd_scara_segment_line init_hole_state Let_def from_cartesian_reachable
        unreachable_def xy_to_q_folded copy_higher_axes_2)
  then show ?thesis
    by (simp add: hole_session_def next_call_def snd_scara_segment_line segment_next_def Let_def
        add_delta_3 from_cartesian_unreachable unreachable_def xy_to_q_hole copy_higher_axes_2)
qed

text \<open>
  C5. In \<open>hole_session\<close> the move is segmented, two iterations remain and \<^verbatim>\<open>jog_cancel\<close> is
  clear; the final target \<open>(46, 0)\<close> satisfies \<open>x\<^sup>2 + y\<^sup>2 \<le> (l1 + l2)\<^sup>2\<close>. The next call decrements
  the count to 1 and copies the final target into the segment target, but the inverse
  transform is NaN there, and the call returns the waypoint of the call before,
  \<open>(0\<degree>, -180\<degree>)\<close>, whose forward transform is \<open>(50, 0)\<close> and not the final target.
\<close>

theorem last_waypoint_misses_final_target:
  "do_segments hole_session \<and> iterations hole_session = 2 \<and> \<not> jog_cancel hole_session
   \<and> final_target hole_session = [Fin 46, Fin 0, Fin 0]
   \<and> (46::real)\<^sup>2 + 0\<^sup>2 \<le> (500 + 450)\<^sup>2
   \<and> iterations (snd (next_call 3 hole_session)) = 1
   \<and> segment_target (snd (next_call 3 hole_session)) = [Fin 46, Fin 0, Fin 0]
   \<and> fst (next_call 3 hole_session) = Some [Fin 0, Fin (- 180), Fin 0]
   \<and> scara_transform_to_cartesian 3 [Fin 0, Fin 0, Fin 0] [Fin 0, Fin (- 180), Fin 0]
       = [Fin 50, Fin 0, Fin 0]"
  by (simp add: hole_session_eq next_call_def scara_segment_line_def segment_next_def Let_def
      from_cartesian_unreachable unreachable_def xy_to_q_hole copy_higher_axes_2
      to_cartesian_3 q_to_xy_folded')

subsection \<open>The call that opens a session\<close>

lemma word_of_int_succ_ge2:
  fixes k :: int
  assumes "1 \<le> k" "k < 2 ^ 32 - 1"
  shows "(2 :: 32 word) \<le> word_of_int k + 1"
proof -
  define m where "m = nat (k + 1)"
  have m: "2 \<le> m" "m < 2 ^ 32"
    using assms by (simp_all add: m_def nat_less_iff)
  have "(word_of_int k :: 32 word) + 1 = word_of_int (int m)"
    using assms by (simp add: m_def)
  also have "\<dots> = of_nat m"
    by simp
  finally have eq: "(word_of_int k :: 32 word) + 1 = of_nat m" .
  have "unat (of_nat m :: 32 word) = m"
    using m(2) by (intro of_nat_inverse [OF refl]) simp
  then show ?thesis
    unfolding eq word_le_nat_alt using m(1) by simp
qed

lemma iterations_init_ge2:
  assumes "\<not> move_distance n target position s > Fin (2 ^ 32)"
  shows "2 \<le> iterations (segment_init n target position plan_data s)"
proof (cases "\<not> rapid_motion plan_data \<and> move_distance n target position s > MAX_SEG_LENGTH_MM")
  case True
  then obtain d where d: "move_distance n target position s = Fin d" and "2 < d"
    by (cases "move_distance n target position s") (simp_all add: MAX_SEG_LENGTH_MM_def)
  with assms have le: "d \<le> 2 ^ 32"
    by simp
  have "1 \<le> \<lceil>d / 2\<rceil>"
    using \<open>2 < d\<close> by (simp add: le_ceiling_iff)
  moreover have "\<lceil>d / 2\<rceil> \<le> 2 ^ 31"
    using le by (simp add: ceiling_le_iff)
  ultimately have "(2 :: 32 word) \<le> word_of_int \<lceil>d / 2\<rceil> + 1"
    by (intro word_of_int_succ_ge2) simp_all
  moreover have "iterations (segment_init n target position plan_data s)
      = word_of_int \<lceil>d / 2\<rceil> + 1"
    using True \<open>2 < d\<close> by (simp add: iterations_segment_init d MAX_SEG_LENGTH_MM_def)
  ultimately show ?thesis
    by simp
next
  case False
  then have "iterations (segment_init n target position plan_data s) = 2"
    by (auto simp: iterations_segment_init)
  then show ?thesis
    by simp
qed

text \<open>
  C9, amended. After a call with \<^verbatim>\<open>init = true\<close>, for a move whose planar distance is not
  above \<open>2^32\<close> mm (so that the segment count fits the counter), at least 2 iterations
  remain and \<^verbatim>\<open>jog_cancel\<close> is clear. The call returns the inverse transform of the
  cartesian start position when the move is segmented, and of the final target otherwise,
  whenever that inverse transform is not out of reach.
\<close>

theorem init_returns_waypoint:
  assumes "3 \<le> n" and "length (current_position s) = n" and "length target = n"
    and "\<not> move_distance n target position s > Fin (2 ^ 32)"
  shows "2 \<le> iterations (snd (scara_segment_line n target position plan_data True s))
    \<and> jog_cancel (snd (scara_segment_line n target position plan_data True s)) = False
    \<and> (if do_segments (snd (scara_segment_line n target position plan_data True s))
       then \<not> unreachable (xy_to_q (start_cartesian n position s ! 0)
                                       (start_cartesian n position s ! 1))
            \<longrightarrow> fst (scara_segment_line n target position plan_data True s)
                  = Some (joint_waypoint (start_cartesian n position s))
       else \<not> unreachable (xy_to_q (target ! 0) (target ! 1))
            \<longrightarrow> fst (scara_segment_line n target position plan_data True s)
                  = Some (joint_waypoint target))"
proof -
  define s' where "s' = segment_init n target position plan_data s"
  define v where "v = fst (snd (scara_transform_from_cartesian n (current_position s')
                                  (segment_target s') (raised_alarms s')))"
  have ge2: "2 \<le> iterations s'"
    unfolding s'_def by (rule iterations_init_ge2 [OF assms(4)])
  then have "iterations s' \<noteq> 0"
    by auto
  then have ret: "fst (scara_segment_line n target position plan_data True s) = Some v"
    by (simp add: fst_scara_segment_line Let_def s'_def v_def)
  have its: "iterations (snd (scara_segment_line n target position plan_data True s)) = iterations s'"
    and jc: "jog_cancel (snd (scara_segment_line n target position plan_data True s)) = False"
    and segs: "do_segments (snd (scara_segment_line n target position plan_data True s))
      = do_segments s'"
    by (simp_all add: snd_scara_segment_line Let_def s'_def)
  have cur: "current_position s' = start_cartesian n position s"
    unfolding s'_def by (rule current_position_segment_init)
  have len: "length (start_cartesian n position s) = n"
    by (rule start_cartesian_nth(3) [OF assms(1,2)])
  have tgt: "segment_target s' = (if do_segments s' then start_cartesian n position s else target)"
    by (simp add: s'_def segment_target_segment_init)
  have a: "v = joint_waypoint (start_cartesian n position s)"
    if "do_segments s'" "\<not> unreachable (xy_to_q (start_cartesian n position s ! 0)
                                       (start_cartesian n position s ! 1))"
    unfolding v_def cur tgt using that
    by (simp add: from_cartesian_waypoint [OF assms(1) len len])
  have b: "v = joint_waypoint target"
    if "\<not> do_segments s'" "\<not> unreachable (xy_to_q (target ! 0) (target ! 1))"
    unfolding v_def cur tgt using that
    by (simp add: from_cartesian_waypoint [OF assms(1) len assms(3)])
  show ?thesis
    unfolding its jc segs ret using ge2 a b by auto
qed

theorem init_returns_waypoint_witness:
  "move_distance 3 [Fin 946, Fin 0, Fin 0] stretched_angles initial_state = Fin 4
   \<and> do_segments (snd (scara_segment_line 3 [Fin 946, Fin 0, Fin 0] stretched_angles
                          \<lparr>rapid_motion = False\<rparr> True initial_state))
   \<and> unreachable (xy_to_q (Fin 950) (Fin 0)) = False
   \<and> (2::32 word) \<le> iterations (snd (scara_segment_line 3 [Fin 946, Fin 0, Fin 0]
                          stretched_angles \<lparr>rapid_motion = False\<rparr> True initial_state))
   \<and> fst (scara_segment_line 3 [Fin 946, Fin 0, Fin 0] stretched_angles
            \<lparr>rapid_motion = False\<rparr> True initial_state) = Some [Fin 0, Fin 0, Fin 0]
   \<and> move_distance 3 [Fin 800, Fin 0, Fin 0] stretched_angles initial_state = Fin 150
   \<and> do_segments (snd (scara_segment_line 3 [Fin 800, Fin 0, Fin 0] stretched_angles
                          \<lparr>rapid_motion = True\<rparr> True initial_state)) = False
   \<and> unreachable (xy_to_q (Fin 800) (Fin 0)) = False
   \<and> fst (scara_segment_line 3 [Fin 800, Fin 0, Fin 0] stretched_angles
            \<lparr>rapid_motion = True\<rparr> True initial_state)
       = Some (joint_waypoint [Fin 800, Fin 0, Fin 0])"
proof -
  have n: "(3::nat) \<le> 3" and lc: "length (current_position initial_state) = 3"
    and lt: "length [Fin 946, Fin 0, Fin 0] = 3" "length [Fin 800, Fin 0, Fin 0] = 3"
    by simp_all
  have d4: "move_distance 3 [Fin 946, Fin 0, Fin 0] stretched_angles initial_state = Fin 4"
    and d150: "move_distance 3 [Fin 800, Fin 0, Fin 0] stretched_angles initial_state = Fin 150"
    by (simp_all add: move_distance_stretched)
  have b4: "\<not> move_distance 3 [Fin 946, Fin 0, Fin 0] stretched_angles initial_state > Fin (2 ^ 32)"
    and b150: "\<not> move_distance 3 [Fin 800, Fin 0, Fin 0] stretched_angles initial_state
                  > Fin (2 ^ 32)"
    by (simp_all add: d4 d150)
  have segs4: "do_segments (snd (scara_segment_line 3 [Fin 946, Fin 0, Fin 0] stretched_angles
                          \<lparr>rapid_motion = False\<rparr> True initial_state))"
    by (simp add: snd_scara_segment_line Let_def do_segments_segment_init d4 MAX_SEG_LENGTH_MM_def)
  have segs8: "do_segments (snd (scara_segment_line 3 [Fin 800, Fin 0, Fin 0] stretched_angles
                          \<lparr>rapid_motion = True\<rparr> True initial_state)) = False"
    by (simp add: snd_scara_segment_line Let_def do_segments_segment_init)
  have r950: "unreachable (xy_to_q (Fin 950) (Fin 0)) = False"
    and r800: "unreachable (xy_to_q (Fin 800) (Fin 0)) = False"
    by (simp_all add: unreachable_iff)
  note a = init_returns_waypoint [OF n lc lt(1) b4, of "\<lparr>rapid_motion = False\<rparr>"]
  note b = init_returns_waypoint [OF n lc lt(2) b150, of "\<lparr>rapid_motion = True\<rparr>"]
  from a have a2: "(2::32 word) \<le> iterations (snd (scara_segment_line 3 [Fin 946, Fin 0, Fin 0]
                          stretched_angles \<lparr>rapid_motion = False\<rparr> True initial_state))"
    by blast
  from a segs4 r950 have ar: "fst (scara_segment_line 3 [Fin 946, Fin 0, Fin 0] stretched_angles
            \<lparr>rapid_motion = False\<rparr> True initial_state) = Some [Fin 0, Fin 0, Fin 0]"
    by (simp add: start_cartesian_stretched joint_waypoint_def xy_to_q_stretched)
  from b segs8 r800 have br: "fst (scara_segment_line 3 [Fin 800, Fin 0, Fin 0] stretched_angles
            \<lparr>rapid_motion = True\<rparr> True initial_state)
       = Some (joint_waypoint [Fin 800, Fin 0, Fin 0])"
    by simp
  from d4 segs4 r950 a2 ar d150 segs8 r800 br show ?thesis
    by blast
qed

text \<open>
  C9, as stated, fails for a rapid move from the stretched pose to the origin, a point with
  \<open>x\<^sup>2 + y\<^sup>2 \<le> (l1 + l2)\<^sup>2\<close>: the inverse transform of the final target is NaN, and what the
  call returns is the vector \<open>(950, 0, 0)\<close>, the cartesian start position, which is not
  the inverse transform of any point the call was given.
\<close>

theorem init_returns_waypoint_counterexample:
  "scara_segment_line 3 [Fin 0, Fin 0, Fin 0] stretched_angles \<lparr>rapid_motion = True\<rparr> True
       initial_state =
     (Some [Fin 950, Fin 0, Fin 0],
      \<lparr>jog_cancel = False, do_segments = False, iterations = 2,
       delta = [Fin (- 950), Fin 0, Fin 0], segment_target = [Fin 0, Fin 0, Fin 0],
       current_position = [Fin 950, Fin 0, Fin 0], final_target = [Fin 0, Fin 0, Fin 0],
       raised_alarms = [Alarm_SoftLimit]\<rparr>)
   \<and> xy_to_q (Fin 0) (Fin 0) = \<lparr>q_q1 = NaN, q_q2 = NaN\<rparr>
   \<and> (0::real)\<^sup>2 + 0\<^sup>2 \<le> (500 + 450)\<^sup>2"
proof -
  have "segment_init 3 [Fin 0, Fin 0, Fin 0] stretched_angles \<lparr>rapid_motion = True\<rparr>
          initial_state =
     \<lparr>jog_cancel = False, do_segments = False, iterations = 2,
      delta = [Fin (- 950), Fin 0, Fin 0], segment_target = [Fin 0, Fin 0, Fin 0],
      current_position = [Fin 950, Fin 0, Fin 0], final_target = [Fin 0, Fin 0, Fin 0],
      raised_alarms = []\<rparr>"
    using start_cartesian_stretched
    by (simp add: segment_init_def Let_def start_cartesian_def calc_delta_3 initial_state_def)
  then show ?thesis
    by (simp add: scara_segment_line_def Let_def from_cartesian_unreachable unreachable_def
        xy_to_q_hole copy_higher_axes_2)
qed

subsection \<open>The target-position adapter applied twice\<close>

lemma arctan_sqrt_3: "arctan (sqrt 3) = pi / 3"
proof (rule arctan_unique)
  show "- (pi / 2) < pi / 3" "pi / 3 < pi / 2"
    using pi_gt_zero by linarith+
  show "tan (pi / 3) = sqrt 3"
    by (rule tan_60)
qed

lemma q1_below_origin:
  fixes y :: real
  defines "c \<equiv> elbow_cos 0 y"
  assumes "y < 0" and "2500 \<le> y\<^sup>2" and "y\<^sup>2 \<le> 902500"
    and A: "0 < 500 + 450 * c" and B: "202500 * (1 - c\<^sup>2) \<le> 3 * (500 + 450 * c)\<^sup>2"
  shows "\<exists>d. q_q1 (xy_to_q (Fin 0) (Fin y)) = Fin d \<and> - 90 \<le> d \<and> d \<le> - 30"
proof -
  have ann: "2500 \<le> 0\<^sup>2 + y\<^sup>2" "0\<^sup>2 + y\<^sup>2 \<le> 902500"
    using assms(3,4) by simp_all
  have c1: "- 1 \<le> c" and c2: "c \<le> 1"
    unfolding c_def using ann by (simp_all only: elbow_cos_range)
  define t where "t = 450 * sin (arccos c) / (500 + 450 * c)"
  have s: "sin (arccos c) = sqrt (1 - c\<^sup>2)"
    using c1 c2 by (rule sin_arccos)
  have s0: "0 \<le> sin (arccos c)"
    unfolding s by (rule real_sqrt_ge_zero) (use c1 c2 in \<open>simp add: abs_square_le_1 abs_le_iff\<close>)
  have t0: "0 \<le> t"
    unfolding t_def using s0 A by simp
  have "(sin (arccos c))\<^sup>2 = 1 - c\<^sup>2"
    using c1 c2 by (simp add: sin_squared_eq)
  then have "(450 * sin (arccos c))\<^sup>2 = 202500 * (1 - c\<^sup>2)"
    by (simp add: power_mult_distrib)
  then have "t\<^sup>2 = 202500 * (1 - c\<^sup>2) / (500 + 450 * c)\<^sup>2"
    by (simp add: t_def power_divide)
  also have "\<dots> \<le> 3"
    using A B by (simp add: divide_le_eq)
  finally have "t \<le> sqrt 3"
    by (rule real_le_rsqrt)
  then have "arctan t \<le> pi / 3"
    unfolding arctan_sqrt_3 [symmetric] by (simp only: arctan_le_iff)
  moreover have "0 \<le> arctan t"
    using t0 by (simp only: zero_le_arctan_iff)
  moreover have beta: "elbow_beta 0 y = arctan t"
    using A by (simp add: elbow_beta_def atan2_def t_def c_def)
  moreover have "atan2 y 0 = - (pi / 2)"
    using assms(2) by (simp add: atan2_def)
  ultimately have lo: "- (pi / 2) \<le> atan2 y 0 + elbow_beta 0 y"
    and hi: "atan2 y 0 + elbow_beta 0 y \<le> - (pi / 6)"
    by simp_all
  define d where "d = (atan2 y 0 + elbow_beta 0 y) * (180 / pi)"
  have k: "0 \<le> 180 / pi"
    using pi_gt_zero by simp
  have "- (pi / 2) * (180 / pi) \<le> d" "d \<le> - (pi / 6) * (180 / pi)"
    unfolding d_def using lo hi k by (intro mult_right_mono; simp)+
  then have "- 90 \<le> d" "d \<le> - 30"
    by simp_all
  moreover have "q_q1 (xy_to_q (Fin 0) (Fin y)) = Fin d"
    unfolding d_def by (simp add: xy_to_q_annulus [OF ann])
  ultimately show ?thesis
    by blast
qed

lemma float_to_int32_neg:
  assumes "- 90 \<le> d" "d \<le> - 30"
  shows "\<exists>k. float_to_int32 (Fin d) = Some k \<and> k \<le> - 30"
proof -
  have "\<lceil>d\<rceil> \<le> - 30"
    using assms(2) by (simp add: ceiling_le_iff)
  moreover have "- 90 \<le> \<lceil>d\<rceil>"
    using assms(1) by (simp add: le_ceiling_iff)
  ultimately show ?thesis
    using assms(2) by (simp add: in_int32_def)
qed

lemma set_target_pos_first:
  "scara_limits_set_target_pos unit_settings 0 [500, - 450, 0] = Some [0, - 450, 0]"
  by (simp add: scara_limits_set_target_pos_def unit_settings_def Let_def int32_to_float_def
      X_AXIS_def Y_AXIS_def A_MOTOR_def B_MOTOR_def xy_to_q_home in_int32_def)

lemma set_target_pos_second:
  "scara_limits_set_target_pos unit_settings 0 [0, - 450, 0] \<noteq> Some [0, - 450, 0]"
proof -
  have c: "elbow_cos 0 (- 450) = - 5 / 9"
    by (simp add: elbow_cos_def)
  obtain d where d: "q_q1 (xy_to_q (Fin 0) (Fin (- 450))) = Fin d" "- 90 \<le> d" "d \<le> - 30"
    using q1_below_origin [of "- 450"] unfolding c by (auto simp: power2_eq_square)
  obtain k where k: "float_to_int32 (Fin d) = Some k" "k \<le> - 30"
    using float_to_int32_neg [OF d(2,3)] by blast
  have "scara_limits_set_target_pos unit_settings 0 [0, - 450, 0] = Some [k, - 450, 0]"
    using k(1)
    by (simp add: scara_limits_set_target_pos_def unit_settings_def Let_def int32_to_float_def
        X_AXIS_def Y_AXIS_def A_MOTOR_def B_MOTOR_def d(1))
  with k(2) show ?thesis
    by simp
qed

text \<open>
  C8, as stated, fails on a driven axis. From the steps \<open>(500, -450, 0)\<close>
  \<open>scara_limits_set_target_pos\<close> for the X axis stores 0 steps in \<^verbatim>\<open>sys.position[0]\<close>; applied
  again it reads \<open>(0, -450)\<close> as the cartesian point and the result is not \<open>(0, -450, 0)\<close>.
\<close>

theorem homing_adapters_counterexample:
  "scara_limits_set_target_pos unit_settings 0 [500, - 450, 0] = Some [0, - 450, 0]
   \<and> scara_limits_set_target_pos unit_settings 0 [0, - 450, 0] \<noteq> Some [0, - 450, 0]"
  using set_target_pos_first set_target_pos_second
  by blast

text \<open>
  C8, amended. \<open>scara_limits_set_target_pos\<close> is idempotent for an axis above the two driven
  ones: it sets the entry of that axis to zero, and a second application changes nothing.
\<close>

theorem homing_adapters_idempotent:
  "2 \<le> idx \<and> idx < length position \<longrightarrow>
     (\<exists>p. scara_limits_set_target_pos settings idx position = Some p
          \<and> scara_limits_set_target_pos settings idx p = Some p
          \<and> p = position[idx := 0])"
proof
  assume "2 \<le> idx \<and> idx < length position"
  then have "idx \<noteq> X_AXIS" "idx \<noteq> Y_AXIS"
    by (simp_all add: X_AXIS_def Y_AXIS_def)
  then have "scara_limits_set_target_pos settings idx p = Some (p[idx := 0])" for p
    by (simp add: scara_limits_set_target_pos_def Let_def)
  then show "\<exists>p. scara_limits_set_target_pos settings idx position = Some p
           \<and> scara_limits_set_target_pos settings idx p = Some p
           \<and> p = position[idx := 0]"
    by simp
qed

theorem homing_adapters_idempotent_witness:
  "(2::nat) \<le> 2 \<and> (2::nat) < length [500, - 450, 7::int]
   \<and> scara_limits_set_target_pos unit_settings 2 [500, - 450, 7] = Some [500, - 450, 0]
   \<and> scara_limits_set_target_pos unit_settings 2 [500, - 450, 0] = Some [500, - 450, 0]"
proof -
  have h: "(2::nat) \<le> 2 \<and> (2::nat) < length [500, - 450, 7::int]"
    by simp
  note a = homing_adapters_idempotent [of 2 "[500, - 450, 7]" unit_settings, rule_format, OF h]
  from a have a': "scara_limits_set_target_pos unit_settings 2 [500, - 450, 7] = Some [500, - 450, 0]
      \<and> scara_limits_set_target_pos unit_settings 2 [500, - 450, 0] = Some [500, - 450, 0]"
    by auto
  from h a' show ?thesis
    by simp
qed

end
